theory Spec2Isabelle
  imports Main
begin

section \<open>Strings\<close>

text \<open>
  A JavaScript string is a sequence of UTF-16 code units.  Code units are modelled as
  natural numbers, so that the character classes of the regular expressions in the
  source (\<^verbatim>\<open>\s\<close>, case-insensitive letters) can be written out exactly.
  \<open>str\<close> turns an ASCII literal into its code units.
\<close>

type_synonym jsstring = "nat list"

definition str :: "string \<Rightarrow> jsstring" where
  "str s = map of_char s"

text \<open>
  The class \<^verbatim>\<open>\s\<close> of an ECMAScript regular expression: the WhiteSpace and
  LineTerminator code points (TAB, LF, VT, FF, CR, SPACE, NBSP, U+1680, U+2000..U+200A,
  U+2028, U+2029, U+202F, U+205F, U+3000, U+FEFF).
\<close>

definition js_whitespace :: "nat \<Rightarrow> bool" where
  "js_whitespace c \<longleftrightarrow>
     c = 9 \<or> c = 10 \<or> c = 11 \<or> c = 12 \<or> c = 13 \<or> c = 32 \<or> c = 160 \<or> c = 5760 \<or>
     (8192 \<le> c \<and> c \<le> 8202) \<or> c = 8232 \<or> c = 8233 \<or> c = 8239 \<or> c = 8287 \<or>
     c = 12288 \<or> c = 65279"

text \<open>
  Matching under the flag \<^verbatim>\<open>i\<close> (without \<^verbatim>\<open>u\<close>) compares the canonical forms of
  the pattern character and the input code unit, where the canonical form is the upper
  case of the code unit, except that a code unit outside ASCII is never mapped into
  ASCII.  Against an ASCII pattern letter it is therefore enough to fold the ASCII
  lower-case letters.
\<close>

definition canonicalize :: "nat \<Rightarrow> nat" where
  "canonicalize c = (if 97 \<le> c \<and> c \<le> 122 then c - 32 else c)"

fun ci_prefix :: "jsstring \<Rightarrow> jsstring \<Rightarrow> bool" where
  "ci_prefix [] cs = True"
| "ci_prefix (p # ps) [] = False"
| "ci_prefix (p # ps) (c # cs) = (canonicalize c = canonicalize p \<and> ci_prefix ps cs)"

text \<open>
  \<^verbatim>\<open>/^\s*select/i.test(sql)\<close>: the greedy \<^verbatim>\<open>\s*\<close> takes the whole leading run of
  white space; giving characters back never helps, since the letter that follows
  is not white space.
\<close>

definition select_regex_test :: "jsstring \<Rightarrow> bool" where
  "select_regex_test sql = ci_prefix (str ''select'') (dropWhile js_whitespace sql)"

section \<open>Errors, environment and tool responses\<close>

datatype ErrorCode = InvalidParams | InternalError | InvalidRequest | MethodNotFound

text \<open>
  The exceptions of the program: \<open>McpError\<close> with its code and message, a plain
  \<open>Error\<close> with its message (also what the database driver and the HTTP client
  throw), the \<open>SyntaxError\<close> of \<^verbatim>\<open>JSON.parse\<close>, and the \<open>TypeError\<close> of reading a
  property of \<^verbatim>\<open>null\<close> or \<^verbatim>\<open>undefined\<close> or calling what is not a function.  A
  function that may throw returns \<open>js_error + 'a\<close>, with \<open>Inl\<close> for the exception.
\<close>

datatype js_error = McpError ErrorCode jsstring | Error jsstring | SyntaxError | TypeError

text \<open>The variables of \<^verbatim>\<open>process.env\<close> the program reads; \<open>None\<close> is an unset variable.\<close>

record process_env =
  OPENAI_API_KEY :: "jsstring option"
  ALLOW_NON_SELECT_QUERIES :: "jsstring option"
  DB_DATABASE :: "jsstring option"

text \<open>
  The response of a tool handler: the result (sent as JSON text), or an error text
  with \<^verbatim>\<open>isError: true\<close> (the handler's prefix followed by the message of the error
  it caught).  A handler that throws instead makes the protocol layer answer with a
  protocol-level error.
\<close>

datatype 'a tool_response = Content 'a | ErrorContent js_error

text \<open>
  Truthiness of a string that may be \<^verbatim>\<open>undefined\<close>, and \<^verbatim>\<open>a || b\<close> on such
  strings: the empty string is falsy.
\<close>

definition truthy :: "jsstring option \<Rightarrow> bool" where
  "truthy a \<longleftrightarrow> (case a of None \<Rightarrow> False | Some s \<Rightarrow> s \<noteq> [])"

definition or_else :: "jsstring option \<Rightarrow> jsstring option \<Rightarrow> jsstring option" where
  "or_else a b = (if truthy a then a else b)"

text \<open>\<^verbatim>\<open>String(request.params.arguments?.x)\<close> for a string argument that may be missing.\<close>

definition String_of :: "jsstring option \<Rightarrow> jsstring" where
  "String_of a = (case a of None \<Rightarrow> str ''undefined'' | Some s \<Rightarrow> s)"

section \<open>The query gateway\<close>

definition allowNonSelect :: "process_env \<Rightarrow> bool" where
  "allowNonSelect env \<longleftrightarrow> ALLOW_NON_SELECT_QUERIES env = Some (str ''true'')"

text \<open>
  The handler of \<^verbatim>\<open>query_database\<close>.  \<open>query\<close> is the execution layer
  (\<^verbatim>\<open>db.query\<close>): it returns rows or throws.  The second component of the result
  lists the statements the handler handed to the execution layer.
\<close>

definition query_database ::
  "process_env \<Rightarrow> (jsstring \<Rightarrow> js_error + 'r) \<Rightarrow> jsstring option
     \<Rightarrow> (js_error + 'r tool_response) \<times> jsstring list" where
  "query_database env query arg =
     (let sql = String_of arg in
      if \<not> allowNonSelect env \<and> \<not> select_regex_test sql
      then (Inl (McpError InvalidParams
              (str ''Only SELECT queries are allowed in read-only mode.'')), [])
      else (case query sql of
              Inr rows \<Rightarrow> (Inr (Content rows), [sql])
            | Inl error \<Rightarrow> (Inr (ErrorContent error), [sql])))"

text \<open>
  The reading of the specification: the statement begins, after optional white space,
  with the letters of SELECT in any case.
\<close>

definition begins_with_select :: "jsstring \<Rightarrow> bool" where
  "begins_with_select s \<longleftrightarrow>
     (\<exists>ws kw rest. s = ws @ kw @ rest \<and> list_all js_whitespace ws \<and>
        map canonicalize kw = str ''SELECT'')"

section \<open>Data model of the virtual schema tree\<close>

record Column =
  column_name :: jsstring
  data_type :: jsstring
  column_key :: jsstring

record Table =
  table_name :: jsstring
  comment :: "jsstring option"
  columns :: "Column list"
  llm_category :: "jsstring option"
  llm_description :: "jsstring option"

text \<open>
  \<open>PathNode\<close> as the source declares it.  The handlers test \<^verbatim>\<open>type === 'directory'\<close>
  only, so \<open>File\<close> stands for every other value.  A node that \<^verbatim>\<open>JSON.parse\<close> returns
  without a \<open>path\<close> is written with the empty path: \<^verbatim>\<open>addPaths\<close> assigns the field
  and never reads it.
\<close>

datatype NodeType = Directory | File

datatype PathNode =
  PathNode (name: jsstring) (path: jsstring) (type: NodeType)
    (children: "PathNode list option") (tableName: "jsstring option")
    (description: "jsstring option")

text \<open>
  The own properties of an object used as a dictionary (\<^verbatim>\<open>Record<string, V>\<close>): an
  association list with distinct keys, in the order in which the engine enumerates
  them.  Keys that are array indices (the canonical decimal numerals below
  \<open>2\<^sup>3\<^sup>2 - 1\<close>) come first, in ascending order, and the other keys follow in the order
  of their creation.  \<open>Object_values\<close> is \<^verbatim>\<open>Object.values(obj)\<close>.
\<close>

type_synonym 'v Record = "(jsstring \<times> 'v) list"

definition array_index :: "jsstring \<Rightarrow> nat option" where
  "array_index k =
     (let n = foldl (\<lambda>n c. 10 * n + (c - 48)) 0 k in
      if k \<noteq> [] \<and> list_all (\<lambda>c. 48 \<le> c \<and> c \<le> 57) k \<and> (hd k \<noteq> 48 \<or> k = [48]) \<and>
         n < 4294967295
      then Some n else None)"

text \<open>A new key \<open>k\<close> is enumerated before the existing key \<open>k'\<close>.\<close>

definition precedes :: "jsstring \<Rightarrow> jsstring \<Rightarrow> bool" where
  "precedes k k' \<longleftrightarrow>
     (case array_index k of
        None \<Rightarrow> False
      | Some i \<Rightarrow> (case array_index k' of None \<Rightarrow> True | Some j \<Rightarrow> i < j))"

primrec obj_update :: "jsstring \<Rightarrow> 'v \<Rightarrow> 'v Record \<Rightarrow> 'v Record" where
  "obj_update k v [] = []"
| "obj_update k v (p # ps) = (if fst p = k then (k, v) # ps else p # obj_update k v ps)"

primrec obj_insert :: "jsstring \<Rightarrow> 'v \<Rightarrow> 'v Record \<Rightarrow> 'v Record" where
  "obj_insert k v [] = [(k, v)]"
| "obj_insert k v (p # ps) =
     (if precedes k (fst p) then (k, v) # p # ps else p # obj_insert k v ps)"

text \<open>
  Writing an own property: the value of an existing key is replaced where it stands,
  a new key takes its place in the enumeration.
\<close>

definition obj_set :: "jsstring \<Rightarrow> 'v \<Rightarrow> 'v Record \<Rightarrow> 'v Record" where
  "obj_set k v obj = (if k \<in> fst ` set obj then obj_update k v obj else obj_insert k v obj)"

definition Object_values :: "'v Record \<Rightarrow> 'v list" where
  "Object_values obj = map snd obj"

text \<open>
  A read \<^verbatim>\<open>obj[k]\<close> of a plain object finds an own property first and then the
  properties the object inherits.  The names below are the members of
  \<^verbatim>\<open>Object.prototype\<close>: eleven functions and the accessor \<^verbatim>\<open>__proto__\<close>, whose getter
  returns the prototype of the object and whose setter replaces it, so that the
  assignment \<^verbatim>\<open>obj['__proto__'] = v\<close> creates no own property.
\<close>

definition Object_prototype_names :: "jsstring list" where
  "Object_prototype_names =
     map str [''constructor'', ''__defineGetter__'', ''__defineSetter__'', ''hasOwnProperty'',
              ''__lookupGetter__'', ''__lookupSetter__'', ''isPrototypeOf'',
              ''propertyIsEnumerable'', ''toString'', ''valueOf'', ''__proto__'',
              ''toLocaleString'']"

text \<open>
  The object \<^verbatim>\<open>tableMap\<close> of the build, which becomes \<^verbatim>\<open>tree.tables\<close>: its own
  properties, and the table that an assignment to \<^verbatim>\<open>__proto__\<close> made its prototype, if
  there was one.  A read yields a table, another truthy value (a function, the
  prototype object, a non-empty string or an array, none of which has \<^verbatim>\<open>columns\<close>),
  or a falsy value (\<^verbatim>\<open>undefined\<close> or the empty string).  A table that became the
  prototype has the properties \<^verbatim>\<open>name\<close>, \<^verbatim>\<open>comment\<close> and \<^verbatim>\<open>columns\<close>, which the map then
  inherits.
\<close>

record table_object =
  own_props :: "Table Record"
  prototype :: "Table option"

datatype member = Table_value Table | Other_truthy | Falsy

definition table_lookup :: "Table Record \<Rightarrow> Table option \<Rightarrow> jsstring \<Rightarrow> member" where
  "table_lookup own proto k =
     (case map_of own k of
        Some t \<Rightarrow> Table_value t
      | None \<Rightarrow>
          (case proto of
             Some P \<Rightarrow>
               if k = str ''__proto__'' then Table_value P
               else if k = str ''name'' then (if table_name P \<noteq> [] then Other_truthy else Falsy)
               else if k = str ''comment'' then (if truthy (comment P) then Other_truthy else Falsy)
               else if k = str ''columns'' then Other_truthy
               else if k \<in> set Object_prototype_names then Other_truthy
               else Falsy
           | None \<Rightarrow> if k \<in> set Object_prototype_names then Other_truthy else Falsy))"

record VirtualTree =
  database :: jsstring
  categories :: "Table list Record"
  tables :: "Table Record"
  root :: "PathNode option"

section \<open>The external collaborators\<close>

text \<open>The rows of the three catalog queries of \<^verbatim>\<open>introspect\<close>.\<close>

record table_row =
  TABLE_NAME :: jsstring
  TABLE_SCHEMA :: jsstring
  TABLE_COMMENT :: jsstring

record column_row =
  COLUMN_TABLE_NAME :: jsstring
  COLUMN_NAME :: jsstring
  DATA_TYPE :: jsstring
  COLUMN_KEY :: jsstring

record fk_row =
  FK_TABLE_NAME :: jsstring
  FK_COLUMN_NAME :: jsstring
  REFERENCED_TABLE_NAME :: jsstring
  REFERENCED_COLUMN_NAME :: jsstring

record catalog =
  cat_tables :: "table_row list"
  cat_columns :: "column_row list"
  cat_fks :: "fk_row list"

text \<open>
  What the chat completion service does with one request: the call fails, or it
  yields a completion whose content may be missing.
\<close>

datatype api_reply = ApiFails js_error | ApiContent "jsstring option"

text \<open>
  One element of the array that \<^verbatim>\<open>JSON.parse\<close> makes of the classifier's answer.  The
  text parsed begins with a bracket, so the value is an array; its elements are not
  checked by the program.  An element is \<^verbatim>\<open>null\<close>, on which reading \<^verbatim>\<open>item.table\<close>
  throws, or a value of which the loop reads \<^verbatim>\<open>table\<close>, \<^verbatim>\<open>category\<close> and \<^verbatim>\<open>description\<close>.
  A field is \<open>None\<close> when it is absent (a number, a string or an array as element
  has none of the three); a \<^verbatim>\<open>table\<close> that is not a string is no key of the \<^verbatim>\<open>Map\<close> and
  counts as absent.  Categories and descriptions are strings, as the program's cast
  declares them.
\<close>

record category_item =
  item_table :: "jsstring option"
  item_category :: "jsstring option"
  item_description :: "jsstring option"

datatype parsed_item = Null_item | Item category_item

text \<open>
  Everything outside the program that one request can touch.  The database answers the
  three catalog queries for a schema name or fails.  The completion service is called
  from three places (the classifier call and the organizer call of the build, the
  organizer call of the repair); each place has its own answer, given as a function of
  the tables its prompt is built from.  \<^verbatim>\<open>JSON.parse\<close> and \<^verbatim>\<open>JSON.stringify\<close> belong to
  the runtime: they are parameters, and \<open>None\<close> is the \<open>SyntaxError\<close> of
  \<^verbatim>\<open>JSON.parse\<close>.  The organizer's tree and the cache file are typed by what the program
  casts the parsed value to; the classifier's array is typed as described above.  \<open>'f\<close> is the content of
  the cache file, and \<open>writeFileSync_fails\<close> says that writing it fails.
\<close>

record 'f world =
  dbms :: "jsstring \<Rightarrow> js_error + catalog"
  classifier :: "Table list \<Rightarrow> api_reply"
  organizer_build :: "Table list \<Rightarrow> api_reply"
  organizer_repair :: "Table list \<Rightarrow> api_reply"
  JSON_parse_items :: "jsstring \<Rightarrow> parsed_item list option"
  JSON_parse_node :: "jsstring \<Rightarrow> PathNode option"
  JSON_parse_tree :: "'f \<Rightarrow> VirtualTree option"
  JSON_stringify :: "VirtualTree \<Rightarrow> 'f"
  writeFileSync_fails :: bool

text \<open>\<^verbatim>\<open>introspect\<close> of \<^verbatim>\<open>db.ts\<close>.\<close>

definition introspect ::
  "process_env \<Rightarrow> 'f world \<Rightarrow> jsstring option \<Rightarrow> js_error + catalog" where
  "introspect env w database_arg =
     (let db = or_else database_arg (DB_DATABASE env) in
      if \<not> truthy db then Inl (Error (str ''No database configured''))
      else dbms w (the db))"

text \<open>\<^verbatim>\<open>callOpenAIChat\<close> of \<^verbatim>\<open>llm.ts\<close>; \<^verbatim>\<open>callOpenAIChatWithLogging\<close> only logs around it.\<close>

definition callOpenAIChat :: "process_env \<Rightarrow> api_reply \<Rightarrow> js_error + jsstring" where
  "callOpenAIChat env reply =
     (if \<not> truthy (OPENAI_API_KEY env) then Inl (Error (str ''OPENAI_API_KEY is not set''))
      else (case reply of
              ApiFails e \<Rightarrow> Inl e
            | ApiContent content \<Rightarrow>
                if \<not> truthy content then Inl (Error (str ''No completion from OpenAI''))
                else Inr (the content)))"

definition callOpenAIChatWithLogging :: "process_env \<Rightarrow> api_reply \<Rightarrow> js_error + jsstring" where
  "callOpenAIChatWithLogging env reply = callOpenAIChat env reply"

section \<open>Categorization and path organization\<close>

text \<open>
  \<^verbatim>\<open>response.match(/\[[\s\S]*\]/)\<close> and \<^verbatim>\<open>response.match(/\{[\s\S]*\}/)\<close>: the match
  starts at the first opening character and, the star being greedy and \<^verbatim>\<open>[\s\S]\<close>
  matching every code unit, ends at the last closing character after it.
\<close>

definition match_span :: "nat \<Rightarrow> nat \<Rightarrow> jsstring \<Rightarrow> jsstring option" where
  "match_span l r response =
     (case dropWhile (\<lambda>c. c \<noteq> l) response of
        [] \<Rightarrow> None
      | b # rest \<Rightarrow>
          if r \<in> set rest then Some (b # rev (dropWhile (\<lambda>c. c \<noteq> r) (rev rest))) else None)"

definition match_array :: "jsstring \<Rightarrow> jsstring option" where
  "match_array response = match_span 91 93 response"

definition match_object :: "jsstring \<Rightarrow> jsstring option" where
  "match_object response = match_span 123 125 response"

text \<open>
  The merge loop of \<^verbatim>\<open>categorizeTablesWithLLM\<close>.  The \<^verbatim>\<open>Map\<close> built from the
  tables keeps, for a name that occurs twice, the later table; the item's category
  and description are written into the table found.  The loop writes into the table
  objects themselves, so the tables it has changed stay changed when a later element
  makes it throw: the loop yields the tables as it leaves them, and the exception if
  there is one.
\<close>

fun merge_item :: "Table list \<Rightarrow> category_item \<Rightarrow> Table list" where
  "merge_item [] item = []"
| "merge_item (t # ts) item =
     (if Some (table_name t) = item_table item \<and> table_name t \<notin> set (map table_name ts)
      then t\<lparr>llm_category := item_category item,
             llm_description := item_description item\<rparr> # ts
      else t # merge_item ts item)"

fun merge_items :: "Table list \<Rightarrow> parsed_item list \<Rightarrow> js_error option \<times> Table list" where
  "merge_items ts [] = (None, ts)"
| "merge_items ts (Null_item # rest) = (Some TypeError, ts)"
| "merge_items ts (Item item # rest) = merge_items (merge_item ts item) rest"

text \<open>
  \<^verbatim>\<open>categorizeTablesWithLLM\<close>: the exception it throws, if any, and the tables as the
  call leaves them (which are the tables it returns when it returns).
\<close>

definition categorizeTablesWithLLM ::
  "process_env \<Rightarrow> 'f world \<Rightarrow> Table list \<Rightarrow> js_error option \<times> Table list" where
  "categorizeTablesWithLLM env w tables_in =
     (case callOpenAIChatWithLogging env (classifier w tables_in) of
        Inl e \<Rightarrow> (Some e, tables_in)
      | Inr response \<Rightarrow>
          (case match_array response of
             None \<Rightarrow> (None, tables_in)
           | Some jsonMatch \<Rightarrow>
               (case JSON_parse_items w jsonMatch of
                  None \<Rightarrow> (Some SyntaxError, tables_in)
                | Some parsed \<Rightarrow> merge_items tables_in parsed)))"

text \<open>\<^verbatim>\<open>addPaths\<close>, the post-processing function inside \<^verbatim>\<open>organizeTablesIntoPaths\<close>.\<close>

primrec addPaths :: "PathNode \<Rightarrow> jsstring \<Rightarrow> PathNode" where
  "addPaths (PathNode nm p t cs tn d) parentPath =
     (let p' = (if parentPath = str ''/''
                then (if nm = str ''/'' then str ''/'' else str ''/'' @ nm)
                else parentPath @ str ''/'' @ nm)
      in PathNode nm p' t (map_option (map (\<lambda>child. addPaths child p')) cs) tn d)"

definition set_path :: "jsstring \<Rightarrow> PathNode \<Rightarrow> PathNode" where
  "set_path p node =
     PathNode (name node) p (type node) (children node) (tableName node) (description node)"

text \<open>
  The two statements after the parse: \<^verbatim>\<open>addPaths(root, '/')\<close> and
  \<^verbatim>\<open>root.path = '/'\<close>.
\<close>

definition assign_paths :: "PathNode \<Rightarrow> PathNode" where
  "assign_paths root_node = set_path (str ''/'') (addPaths root_node (str ''/''))"

definition organizeTablesIntoPaths ::
  "process_env \<Rightarrow> 'f world \<Rightarrow> (Table list \<Rightarrow> api_reply) \<Rightarrow> Table list
     \<Rightarrow> js_error + PathNode" where
  "organizeTablesIntoPaths env w organizer tables_in =
     (case callOpenAIChatWithLogging env (organizer tables_in) of
        Inl e \<Rightarrow> Inl e
      | Inr response \<Rightarrow>
          (case match_object response of
             None \<Rightarrow> Inl (Error (str ''LLM response did not contain valid JSON''))
           | Some jsonMatch \<Rightarrow>
               (case JSON_parse_node w jsonMatch of
                  None \<Rightarrow> Inl SyntaxError
                | Some root_node \<Rightarrow> Inr (assign_paths root_node))))"

text \<open>
  A tree with every \<open>path\<close> blanked: what is left of a raw tree when the paths the
  organizer wrote are disregarded.
\<close>

primrec forget_paths :: "PathNode \<Rightarrow> PathNode" where
  "forget_paths (PathNode nm p t cs tn d) =
     PathNode nm [] t (map_option (map forget_paths) cs) tn d"

section \<open>Assembly of the tree\<close>

text \<open>A loop whose body may throw: the exception ends the loop.\<close>

fun foldl_throw :: "('a \<Rightarrow> 'b \<Rightarrow> js_error + 'a) \<Rightarrow> 'a \<Rightarrow> 'b list \<Rightarrow> js_error + 'a" where
  "foldl_throw f a [] = Inr a"
| "foldl_throw f a (x # xs) = (case f a x of Inl e \<Rightarrow> Inl e | Inr a' \<Rightarrow> foldl_throw f a' xs)"

text \<open>
  The first loop of \<^verbatim>\<open>buildVirtualTree\<close>: \<^verbatim>\<open>tableMap[t.TABLE_NAME] = {...}\<close>.  A
  \<^verbatim>\<open>TABLE_COMMENT\<close> is a string, so \<^verbatim>\<open>t.TABLE_COMMENT || ''\<close> is the comment itself.  For
  the name \<^verbatim>\<open>__proto__\<close> the assignment runs the setter and the new table becomes the
  prototype of the map (unless the map has an own property of that name).
\<close>

definition new_table :: "table_row \<Rightarrow> Table" where
  "new_table t =
     \<lparr>table_name = TABLE_NAME t, comment = Some (TABLE_COMMENT t), columns = [],
      llm_category = None, llm_description = None\<rparr>"

definition add_table :: "table_object \<Rightarrow> table_row \<Rightarrow> table_object" where
  "add_table tableMap t =
     (if TABLE_NAME t = str ''__proto__'' \<and> str ''__proto__'' \<notin> fst ` set (own_props tableMap)
      then tableMap\<lparr>prototype := Some (new_table t)\<rparr>
      else tableMap\<lparr>own_props := obj_set (TABLE_NAME t) (new_table t) (own_props tableMap)\<rparr>)"

text \<open>
  The second loop: \<^verbatim>\<open>const tbl = tableMap[c.TABLE_NAME]; if (!tbl) continue;
  tbl.columns.push(...)\<close>.  The column is pushed onto the table found, be it an own
  property or the prototype; on a truthy value that is not a table, \<^verbatim>\<open>tbl.columns\<close> is
  \<^verbatim>\<open>undefined\<close> and the push throws.
\<close>

definition new_column :: "column_row \<Rightarrow> Column" where
  "new_column c =
     \<lparr>column_name = COLUMN_NAME c, data_type = DATA_TYPE c, column_key = COLUMN_KEY c\<rparr>"

definition add_column :: "table_object \<Rightarrow> column_row \<Rightarrow> js_error + table_object" where
  "add_column tableMap c =
     (case table_lookup (own_props tableMap) (prototype tableMap) (COLUMN_TABLE_NAME c) of
        Falsy \<Rightarrow> Inr tableMap
      | Other_truthy \<Rightarrow> Inl TypeError
      | Table_value tbl \<Rightarrow>
          (let tbl' = tbl\<lparr>columns := columns tbl @ [new_column c]\<rparr> in
           if COLUMN_TABLE_NAME c \<in> fst ` set (own_props tableMap)
           then Inr (tableMap\<lparr>own_props := obj_set (COLUMN_TABLE_NAME c) tbl' (own_props tableMap)\<rparr>)
           else Inr (tableMap\<lparr>prototype := Some tbl'\<rparr>)))"

definition table_map :: "catalog \<Rightarrow> js_error + table_object" where
  "table_map cat =
     foldl_throw add_column
       (foldl add_table \<lparr>own_props = [], prototype = None\<rparr> (cat_tables cat)) (cat_columns cat)"

text \<open>
  The bucket loop: \<^verbatim>\<open>categories[cat] = categories[cat] || []; categories[cat].push(tbl)\<close>.
  For a category named like a member of \<^verbatim>\<open>Object.prototype\<close> the read finds the
  inherited member, which has no \<^verbatim>\<open>push\<close>, and the statement throws.
\<close>

definition add_to_category :: "Table list Record \<Rightarrow> Table \<Rightarrow> js_error + Table list Record" where
  "add_to_category cats tbl =
     (let cat = (if truthy (llm_category tbl) then the (llm_category tbl) else str ''other'')
      in case map_of cats cat of
           Some l \<Rightarrow> Inr (obj_set cat (l @ [tbl]) cats)
         | None \<Rightarrow>
             if cat \<in> set Object_prototype_names then Inl TypeError
             else Inr (obj_set cat [tbl] cats))"

text \<open>
  Lines 40 to 48 of \<^verbatim>\<open>mapping.ts\<close>: the list of tables the build goes on with.  The
  classifier is asked only when the API key is set, and an exception of the
  categorization is caught.  The list holds the table objects of the map in both
  cases, so it shows what the categorization wrote before it threw.
\<close>

definition useTableList :: "process_env \<Rightarrow> 'f world \<Rightarrow> Table Record \<Rightarrow> Table list" where
  "useTableList env w tableMap =
     (if truthy (OPENAI_API_KEY env)
      then snd (categorizeTablesWithLLM env w (Object_values tableMap))
      else Object_values tableMap)"

text \<open>The name of the database (line 26) and the attempt to organize (lines 57 to 65).\<close>

definition database_name :: "process_env \<Rightarrow> jsstring option \<Rightarrow> table_row list \<Rightarrow> jsstring" where
  "database_name env database_arg tablesArray =
     the (or_else (or_else (or_else
            (case tablesArray of [] \<Rightarrow> None | t # ts \<Rightarrow> Some (TABLE_SCHEMA t))
            database_arg) (DB_DATABASE env)) (Some (str ''database'')))"

definition root_node :: "process_env \<Rightarrow> 'f world \<Rightarrow> Table list \<Rightarrow> PathNode option" where
  "root_node env w tableList =
     (if truthy (OPENAI_API_KEY env)
      then (case organizeTablesIntoPaths env w (organizer_build w) tableList of
              Inr r \<Rightarrow> Some r
            | Inl err \<Rightarrow> None)
      else None)"

text \<open>
  \<^verbatim>\<open>buildVirtualTree\<close>.  It returns the tree, and with it the prototype that
  \<^verbatim>\<open>tree.tables\<close> has in memory.  The categorization writes into the \<open>Table\<close> objects
  that the map holds, so the map of the returned tree pairs its keys with the tables
  of the list.
\<close>

definition buildVirtualTree ::
  "process_env \<Rightarrow> 'f world \<Rightarrow> jsstring option \<Rightarrow> js_error + VirtualTree \<times> Table option" where
  "buildVirtualTree env w database_arg =
     (case introspect env w database_arg of
        Inl e \<Rightarrow> Inl e
      | Inr cat \<Rightarrow>
          (case table_map cat of
             Inl e \<Rightarrow> Inl e
           | Inr tableMap \<Rightarrow>
               (let tableList = useTableList env w (own_props tableMap) in
                case foldl_throw add_to_category [] tableList of
                  Inl e \<Rightarrow> Inl e
                | Inr cats \<Rightarrow>
                    Inr (\<lparr>database = database_name env database_arg (cat_tables cat),
                          categories = cats,
                          tables = zip (map fst (own_props tableMap)) tableList,
                          root = root_node env w tableList\<rparr>,
                         prototype tableMap))))"

section \<open>The server: cached tree, navigation, table lookup\<close>

text \<open>
  The state of the server process that matters here: \<^verbatim>\<open>this.tree\<close>, the prototype
  that \<^verbatim>\<open>this.tree.tables\<close> has in memory when a build replaced it (a prototype is not
  a property, so it is no part of what is written to the cache), and the cache file.
\<close>

record 'f server_state =
  tree :: "VirtualTree option"
  tables_proto :: "Table option"
  cache_file :: "'f option"

definition saveSchemaToCache :: "'f world \<Rightarrow> 'f server_state \<Rightarrow> 'f server_state" where
  "saveSchemaToCache w st =
     (case tree st of
        None \<Rightarrow> st
      | Some t \<Rightarrow>
          if writeFileSync_fails w then st else st\<lparr>cache_file := Some (JSON_stringify w t)\<rparr>)"

text \<open>
  \<^verbatim>\<open>ensureTree\<close> in three parts: the attempt to load the cache (lines 110 to 120), the
  check for a missing root (lines 129 to 139), and the function itself.
\<close>

definition load_cache :: "'f world \<Rightarrow> 'f server_state \<Rightarrow> VirtualTree option" where
  "load_cache w st = (case cache_file st of None \<Rightarrow> None | Some data \<Rightarrow> JSON_parse_tree w data)"

definition repair_root ::
  "process_env \<Rightarrow> 'f world \<Rightarrow> VirtualTree \<Rightarrow> 'f server_state
     \<Rightarrow> VirtualTree \<times> 'f server_state" where
  "repair_root env w t st =
     (if root t = None \<and> truthy (OPENAI_API_KEY env)
      then (case organizeTablesIntoPaths env w (organizer_repair w) (Object_values (tables t)) of
              Inr r \<Rightarrow>
                (let t' = t\<lparr>root := Some r\<rparr>
                 in (t', saveSchemaToCache w (st\<lparr>tree := Some t'\<rparr>)))
            | Inl err \<Rightarrow> (t, st))
      else (t, st))"

definition ensureTree ::
  "process_env \<Rightarrow> 'f world \<Rightarrow> 'f server_state
     \<Rightarrow> js_error + VirtualTree \<times> 'f server_state" where
  "ensureTree env w st =
     (case tree st of
        Some t \<Rightarrow> Inr (repair_root env w t st)
      | None \<Rightarrow>
          (case load_cache w st of
             Some t \<Rightarrow> Inr (t, st\<lparr>tree := Some t, tables_proto := None\<rparr>)
           | None \<Rightarrow>
               (case buildVirtualTree env w None of
                  Inl e \<Rightarrow> Inl e
                | Inr (t, proto) \<Rightarrow>
                    Inr (repair_root env w t
                           (saveSchemaToCache w (st\<lparr>tree := Some t, tables_proto := proto\<rparr>))))))"

text \<open>The request path: \<^verbatim>\<open>path.replace(/^\/+|\/+$/g, '')\<close> and \<^verbatim>\<open>split('/')\<close>.\<close>

definition cleanPath :: "jsstring \<Rightarrow> jsstring" where
  "cleanPath p = rev (dropWhile (\<lambda>c. c = 47) (rev (dropWhile (\<lambda>c. c = 47) p)))"

fun split :: "nat \<Rightarrow> jsstring \<Rightarrow> jsstring list" where
  "split sep [] = [[]]"
| "split sep (c # cs) =
     (if c = sep then [] # split sep cs
      else (let r = split sep cs in (c # hd r) # tl r))"

text \<open>The descent loop of \<^verbatim>\<open>schema_ls\<close>; \<open>request\<close> is the path as the caller wrote it.\<close>

fun descend :: "jsstring \<Rightarrow> PathNode \<Rightarrow> jsstring list \<Rightarrow> js_error + PathNode" where
  "descend request currentNode [] = Inr currentNode"
| "descend request currentNode (part # parts) =
     (case children currentNode of
        None \<Rightarrow> Inl (McpError InvalidParams (str ''Path not found: '' @ request))
      | Some cs \<Rightarrow>
          (case find (\<lambda>c. name c = part) cs of
             None \<Rightarrow>
               Inl (McpError InvalidParams
                 (str ''Path segment '' @ [39] @ part @ [39] @ str '' not found in '' @
                  [39] @ path currentNode @ [39]))
           | Some found \<Rightarrow> descend request found parts))"

record entry =
  entry_name :: jsstring
  entry_type :: NodeType
  entry_path :: jsstring
  entry_tableName :: "jsstring option"
  entry_description :: "jsstring option"

text \<open>
  The entry of a child in a listing.  In \<^verbatim>\<open>tree.tables[c.tableName]?.llm_description\<close>
  only an own property of \<^verbatim>\<open>tree.tables\<close> can contribute: an inherited member (a
  function, a string, an array, a prototype table, which the categorization never
  sees) has no \<^verbatim>\<open>llm_description\<close>.
\<close>

definition child_entry :: "VirtualTree \<Rightarrow> PathNode \<Rightarrow> entry" where
  "child_entry t c =
     \<lparr>entry_name = name c, entry_type = type c, entry_path = path c,
      entry_tableName = tableName c,
      entry_description =
        or_else (description c)
          (if truthy (tableName c)
           then (case map_of (tables t) (the (tableName c)) of
                   None \<Rightarrow> None
                 | Some tbl \<Rightarrow> llm_description tbl)
           else None)\<rparr>"

definition list_node :: "VirtualTree \<Rightarrow> PathNode \<Rightarrow> entry list" where
  "list_node t currentNode =
     (if type currentNode = Directory
      then (case children currentNode of None \<Rightarrow> [] | Some cs \<Rightarrow> map (child_entry t) cs)
      else [\<lparr>entry_name = name currentNode, entry_type = File,
             entry_path = path currentNode, entry_tableName = tableName currentNode,
             entry_description = description currentNode\<rparr>])"

text \<open>\<^verbatim>\<open>String(request.params.arguments?.path || '/')\<close>.\<close>

definition path_argument :: "jsstring option \<Rightarrow> jsstring" where
  "path_argument arg = (if truthy arg then the arg else str ''/'')"

definition schema_ls ::
  "process_env \<Rightarrow> 'f world \<Rightarrow> 'f server_state \<Rightarrow> jsstring option
     \<Rightarrow> entry list tool_response \<times> 'f server_state" where
  "schema_ls env w st arg =
     (let request = path_argument arg in
      case ensureTree env w st of
        Inl e \<Rightarrow> (ErrorContent e, st)
      | Inr (t, st') \<Rightarrow>
          (case root t of
             None \<Rightarrow>
               (ErrorContent (McpError InternalError
                  (str ''Virtual file system not initialized'')), st')
           | Some r \<Rightarrow>
               (case (if cleanPath request \<noteq> []
                      then descend request r (split 47 (cleanPath request))
                      else Inr r) of
                  Inl e \<Rightarrow> (ErrorContent e, st')
                | Inr currentNode \<Rightarrow> (Content (list_node t currentNode), st'))))"




section \<open>The cache file as a JSON document\<close>

text \<open>
  The cache file holds the text \<^verbatim>\<open>JSON.stringify(this.tree, null, 2)\<close>, and loading
  applies \<^verbatim>\<open>JSON.parse\<close> to it.  Both belong to the runtime.  The file is modelled by
  the JSON document its text denotes: a value built from strings, arrays and objects
  (an object being the list of its members, with distinct keys, in order).  What
  \<^verbatim>\<open>JSON.stringify\<close> writes for a tree is the object of its properties, where a property
  whose value is \<^verbatim>\<open>undefined\<close> is left out; a number is kept as its literal.
\<close>

datatype json =
  JNull | JBool bool | JNumber jsstring | JString jsstring | JArray "json list"
| JObject "(jsstring \<times> json) list"

definition opt_field :: "string \<Rightarrow> ('a \<Rightarrow> json) \<Rightarrow> 'a option \<Rightarrow> (jsstring \<times> json) list" where
  "opt_field k enc v = (case v of None \<Rightarrow> [] | Some x \<Rightarrow> [(str k, enc x)])"

definition Column_to_json :: "Column \<Rightarrow> json" where
  "Column_to_json c =
     JObject [(str ''name'', JString (column_name c)), (str ''data_type'', JString (data_type c)),
              (str ''key'', JString (column_key c))]"

definition Table_to_json :: "Table \<Rightarrow> json" where
  "Table_to_json t =
     JObject ([(str ''name'', JString (table_name t))] @ opt_field ''comment'' JString (comment t) @
              [(str ''columns'', JArray (map Column_to_json (columns t)))] @
              opt_field ''llm_category'' JString (llm_category t) @
              opt_field ''llm_description'' JString (llm_description t))"

definition NodeType_to_json :: "NodeType \<Rightarrow> json" where
  "NodeType_to_json t = JString (case t of Directory \<Rightarrow> str ''directory'' | File \<Rightarrow> str ''file'')"

primrec PathNode_to_json :: "PathNode \<Rightarrow> json" where
  "PathNode_to_json (PathNode nm p t cs tn d) =
     JObject ([(str ''name'', JString nm), (str ''path'', JString p), (str ''type'', NodeType_to_json t)] @
              opt_field ''children'' JArray (map_option (map PathNode_to_json) cs) @
              opt_field ''tableName'' JString tn @
              opt_field ''description'' JString d)"

definition VirtualTree_to_json :: "VirtualTree \<Rightarrow> json" where
  "VirtualTree_to_json t =
     JObject ([(str ''database'', JString (database t)),
               (str ''categories'',
                  JObject (map (\<lambda>(k, ts). (k, JArray (map Table_to_json ts))) (categories t))),
               (str ''tables'', JObject (map (\<lambda>(k, tbl). (k, Table_to_json tbl)) (tables t)))] @
              opt_field ''root'' PathNode_to_json (root t))"

text \<open>
  Reading a document back: \<^verbatim>\<open>JSON.parse\<close> followed by the cast to the tree type.
  The document is read as a tree when it has the shape of one.  A document of another
  shape cannot have been written by \<^verbatim>\<open>saveSchemaToCache\<close>; the model treats it like a
  file that does not parse.
\<close>

definition get_string :: "(jsstring \<times> json) list \<Rightarrow> string \<Rightarrow> jsstring option" where
  "get_string fs k = (case map_of fs (str k) of Some (JString s) \<Rightarrow> Some s | _ \<Rightarrow> None)"

definition well_typed_opt_string :: "(jsstring \<times> json) list \<Rightarrow> string \<Rightarrow> bool" where
  "well_typed_opt_string fs k = (case map_of fs (str k) of None \<Rightarrow> True | Some (JString s) \<Rightarrow> True | _ \<Rightarrow> False)"

function (sequential) json_to_PathNode :: "json \<Rightarrow> PathNode option" where
  "json_to_PathNode (JObject fs) =
     (case (get_string fs ''name'', get_string fs ''path'', get_string fs ''type'') of
        (Some nm, Some p, Some ty) \<Rightarrow>
          (if (ty = str ''directory'' \<or> ty = str ''file'') \<and>
              well_typed_opt_string fs ''tableName'' \<and> well_typed_opt_string fs ''description''
           then (case map_of fs (str ''children'') of
                   None \<Rightarrow> Some (PathNode nm p (if ty = str ''directory'' then Directory else File)
                              None (get_string fs ''tableName'') (get_string fs ''description''))
                 | Some (JArray cs) \<Rightarrow>
                     map_option (\<lambda>l. PathNode nm p (if ty = str ''directory'' then Directory else File)
                              (Some l) (get_string fs ''tableName'') (get_string fs ''description''))
                       (those (map json_to_PathNode cs))
                 | Some _ \<Rightarrow> None)
           else None)
      | _ \<Rightarrow> None)"
| "json_to_PathNode _ = None"

  by pat_completeness auto
termination
proof -
  have field: "size v < size (JObject fs)" if "map_of fs k = Some v"
    for fs :: "(jsstring \<times> json) list" and k v
    using that by (induction fs) (auto split: if_splits)
  have element: "size c < size (JArray cs)" if "c \<in> set cs" for c :: json and cs
    using that by (induction cs) auto
  show ?thesis
    by (relation "measure size") (auto dest!: field element)
qed

definition json_to_Column :: "json \<Rightarrow> Column option" where
  "json_to_Column j =
     (case j of
        JObject fs \<Rightarrow>
          (case (get_string fs ''name'', get_string fs ''data_type'', get_string fs ''key'') of
             (Some n, Some d, Some k) \<Rightarrow> Some \<lparr>column_name = n, data_type = d, column_key = k\<rparr>
           | _ \<Rightarrow> None)
      | _ \<Rightarrow> None)"

definition json_to_Table :: "json \<Rightarrow> Table option" where
  "json_to_Table j =
     (case j of
        JObject fs \<Rightarrow>
          (case (get_string fs ''name'', map_of fs (str ''columns'')) of
             (Some n, Some (JArray cs)) \<Rightarrow>
               (if well_typed_opt_string fs ''comment'' \<and>
                   well_typed_opt_string fs ''llm_category'' \<and>
                   well_typed_opt_string fs ''llm_description''
                then map_option
                       (\<lambda>cols. \<lparr>table_name = n, comment = get_string fs ''comment'',
                                columns = cols, llm_category = get_string fs ''llm_category'',
                                llm_description = get_string fs ''llm_description''\<rparr>)
                       (those (map json_to_Column cs))
                else None)
           | _ \<Rightarrow> None)
      | _ \<Rightarrow> None)"

definition json_to_Table_list :: "json \<Rightarrow> Table list option" where
  "json_to_Table_list j = (case j of JArray ts \<Rightarrow> those (map json_to_Table ts) | _ \<Rightarrow> None)"

definition json_to_Record :: "(json \<Rightarrow> 'a option) \<Rightarrow> json \<Rightarrow> 'a Record option" where
  "json_to_Record dec j =
     (case j of
        JObject fs \<Rightarrow> those (map (\<lambda>(k, v). map_option (Pair k) (dec v)) fs)
      | _ \<Rightarrow> None)"

definition json_to_VirtualTree :: "json \<Rightarrow> VirtualTree option" where
  "json_to_VirtualTree j =
     (case j of
        JObject fs \<Rightarrow>
          (case (get_string fs ''database'',
                 Option.bind (map_of fs (str ''categories'')) (json_to_Record json_to_Table_list),
                 Option.bind (map_of fs (str ''tables'')) (json_to_Record json_to_Table)) of
             (Some db, Some cats, Some tbls) \<Rightarrow>
               (case map_of fs (str ''root'') of
                  None \<Rightarrow> Some \<lparr>database = db, categories = cats, tables = tbls, root = None\<rparr>
                | Some r \<Rightarrow>
                    map_option
                      (\<lambda>n. \<lparr>database = db, categories = cats, tables = tbls, root = Some n\<rparr>)
                      (json_to_PathNode r))
           | _ \<Rightarrow> None)
      | _ \<Rightarrow> None)"

section \<open>Readings of the specification\<close>

text \<open>
  A path resolves from a node to a node: the empty path to the node itself, and a
  path beginning with a segment through the first child of that name.
\<close>

inductive resolves :: "PathNode \<Rightarrow> jsstring list \<Rightarrow> PathNode \<Rightarrow> bool" where
  resolves_here: "resolves n [] n"
| resolves_step:
    "children n = Some cs \<Longrightarrow> find (\<lambda>c. name c = part) cs = Some c \<Longrightarrow> resolves c parts m
       \<Longrightarrow> resolves n (part # parts) m"

definition child_names :: "PathNode \<Rightarrow> jsstring set" where
  "child_names n = (case children n of None \<Rightarrow> {} | Some cs \<Rightarrow> name ` set cs)"

text \<open>
  The path the specification gives a node: the names on the way from the root down to
  the node, the root's own name left out, each preceded by a slash; the root itself
  has the path \<^verbatim>\<open>/\<close>.  \<open>node_paths\<close> lists every node of a tree by these names together
  with the path the node carries.
\<close>

definition spec_path :: "jsstring list \<Rightarrow> jsstring" where
  "spec_path names = (if names = [] then str ''/'' else concat (map (\<lambda>n. str ''/'' @ n) names))"

primrec node_paths :: "PathNode \<Rightarrow> jsstring list \<Rightarrow> (jsstring list \<times> jsstring) list" where
  "node_paths (PathNode nm p t cs tn d) names =
     (names, p) #
     (case map_option (map (\<lambda>c. node_paths c (names @ [name c]))) cs of
        None \<Rightarrow> []
      | Some ls \<Rightarrow> concat ls)"

definition paths_canonical :: "PathNode \<Rightarrow> bool" where
  "paths_canonical r \<longleftrightarrow> list_all (\<lambda>(names, p). p = spec_path names) (node_paths r [])"

text \<open>
  The first syntactically balanced array of a response, as the specification words
  it: the text from an opening bracket to the bracket that closes it, for the first
  opening bracket that has one.
\<close>

fun balanced_rest :: "nat \<Rightarrow> jsstring \<Rightarrow> jsstring option" where
  "balanced_rest depth [] = None"
| "balanced_rest depth (c # cs) =
     (if c = 93 \<and> depth = 0 then Some [c]
      else map_option ((#) c)
             (balanced_rest (if c = 91 then Suc depth else if c = 93 then depth - 1 else depth) cs))"

fun spec_first_balanced_array :: "jsstring \<Rightarrow> jsstring option" where
  "spec_first_balanced_array [] = None"
| "spec_first_balanced_array (c # cs) =
     (if c = 91
      then (case balanced_rest 0 cs of
              Some b \<Rightarrow> Some (c # b)
            | None \<Rightarrow> spec_first_balanced_array cs)
      else spec_first_balanced_array cs)"

text \<open>
  The failures of the classifier that the specification names: the call throws (no
  API key, the service unreachable, an empty completion), the answer has no array, or
  the text matched does not parse.
\<close>

definition classifier_fails :: "process_env \<Rightarrow> 'f world \<Rightarrow> Table list \<Rightarrow> bool" where
  "classifier_fails env w ts \<longleftrightarrow>
     (case callOpenAIChatWithLogging env (classifier w ts) of
        Inl e \<Rightarrow> True
      | Inr response \<Rightarrow>
          (case match_array response of
             None \<Rightarrow> True
           | Some jsonMatch \<Rightarrow> JSON_parse_items w jsonMatch = None))"

section \<open>Invariant of the table map\<close>

text \<open>A table as the first loop of the build leaves it: named by its key, no columns, no category.\<close>

definition fresh_table :: "jsstring \<Rightarrow> Table \<Rightarrow> bool" where
  "fresh_table k t \<longleftrightarrow>
     table_name t = k \<and> columns t = [] \<and> llm_category t = None \<and> llm_description t = None"

section \<open>A concrete scenario\<close>

text \<open>
  The catalog of the specification's scenario: the tables \<^verbatim>\<open>patients(id, name)\<close> and
  \<^verbatim>\<open>visits(id, patient_id, date)\<close> of the schema \<^verbatim>\<open>clinic\<close>.
\<close>

definition clinic_catalog :: catalog where
  "clinic_catalog =
     \<lparr>cat_tables =
        [\<lparr>TABLE_NAME = str ''patients'', TABLE_SCHEMA = str ''clinic'', TABLE_COMMENT = []\<rparr>,
         \<lparr>TABLE_NAME = str ''visits'', TABLE_SCHEMA = str ''clinic'', TABLE_COMMENT = []\<rparr>],
      cat_columns =
        [\<lparr>COLUMN_TABLE_NAME = str ''patients'', COLUMN_NAME = str ''id'',
          DATA_TYPE = str ''int'', COLUMN_KEY = str ''PRI''\<rparr>,
         \<lparr>COLUMN_TABLE_NAME = str ''patients'', COLUMN_NAME = str ''name'',
          DATA_TYPE = str ''varchar'', COLUMN_KEY = []\<rparr>,
         \<lparr>COLUMN_TABLE_NAME = str ''visits'', COLUMN_NAME = str ''id'',
          DATA_TYPE = str ''int'', COLUMN_KEY = str ''PRI''\<rparr>,
         \<lparr>COLUMN_TABLE_NAME = str ''visits'', COLUMN_NAME = str ''patient_id'',
          DATA_TYPE = str ''int'', COLUMN_KEY = str ''MUL''\<rparr>,
         \<lparr>COLUMN_TABLE_NAME = str ''visits'', COLUMN_NAME = str ''date'',
          DATA_TYPE = str ''date'', COLUMN_KEY = []\<rparr>],
      cat_fks = []\<rparr>"

definition patients :: Table where
  "patients =
     \<lparr>table_name = str ''patients'', comment = Some [],
      columns = [\<lparr>column_name = str ''id'', data_type = str ''int'', column_key = str ''PRI''\<rparr>,
                 \<lparr>column_name = str ''name'', data_type = str ''varchar'', column_key = []\<rparr>],
      llm_category = None, llm_description = None\<rparr>"

definition visits :: Table where
  "visits =
     \<lparr>table_name = str ''visits'', comment = Some [],
      columns = [\<lparr>column_name = str ''id'', data_type = str ''int'', column_key = str ''PRI''\<rparr>,
                 \<lparr>column_name = str ''patient_id'', data_type = str ''int'', column_key = str ''MUL''\<rparr>,
                 \<lparr>column_name = str ''date'', data_type = str ''date'', column_key = []\<rparr>],
      llm_category = None, llm_description = None\<rparr>"

definition clinic_tree :: VirtualTree where
  "clinic_tree =
     \<lparr>database = str ''clinic'', categories = [(str ''other'', [patients, visits])],
      tables = [(str ''patients'', patients), (str ''visits'', visits)], root = None\<rparr>"

text \<open>
  An answer of the organizer, JSON between two lines of prose, and the tree that
  \<^verbatim>\<open>JSON.parse\<close> makes of the JSON.
\<close>

definition quoted :: "string \<Rightarrow> jsstring" where
  "quoted s = [34] @ str s @ [34]"

definition organizer_json :: jsstring where
  "organizer_json =
     str ''{'' @ quoted ''name'' @ str '':'' @ quoted ''/'' @ str '','' @
     quoted ''type'' @ str '':'' @ quoted ''directory'' @ str '','' @
     quoted ''children'' @ str '':[{'' @ quoted ''name'' @ str '':'' @ quoted ''patients'' @
     str '','' @ quoted ''type'' @ str '':'' @ quoted ''file'' @ str '','' @
     quoted ''tableName'' @ str '':'' @ quoted ''patients'' @ str ''}]}''"

definition organizer_answer :: jsstring where
  "organizer_answer = str ''Here is the layout: '' @ organizer_json @ str '' Done.''"

definition organizer_tree :: PathNode where
  "organizer_tree =
     PathNode (str ''/'') [] Directory
       (Some [PathNode (str ''patients'') [] File None (Some (str ''patients'')) None]) None None"

definition clinic_root :: PathNode where
  "clinic_root =
     PathNode (str ''/'') (str ''/'') Directory
       (Some [PathNode (str ''patients'') (str ''/patients'') File None
                (Some (str ''patients'')) None]) None None"

text \<open>A tree whose root the organizer did not name \<^verbatim>\<open>/\<close>, as \<^verbatim>\<open>JSON.parse\<close> returns it.\<close>

definition misnamed_tree :: PathNode where
  "misnamed_tree =
     PathNode (str ''root'') [] Directory
       (Some [PathNode (str ''a'') [] File None (Some (str ''a'')) None]) None None"

text \<open>A tree with a directory whose children are empty and one whose children are absent.\<close>

definition bare_directory :: PathNode where
  "bare_directory = PathNode (str ''bare'') (str ''/bare'') Directory None None None"

definition empty_directory :: PathNode where
  "empty_directory = PathNode (str ''empty'') (str ''/empty'') Directory (Some []) None None"

definition sparse_root :: PathNode where
  "sparse_root =
     PathNode (str ''/'') (str ''/'') Directory (Some [empty_directory, bare_directory]) None None"

definition sparse_state :: "json server_state" where
  "sparse_state = \<lparr>tree = Some (clinic_tree\<lparr>root := Some sparse_root\<rparr>), tables_proto = None, cache_file = None\<rparr>"

text \<open>
  The world of the scenario: the database answers with the catalog, the classifier is
  unreachable, the organizer gives the answer above, and the runtime's \<^verbatim>\<open>JSON.parse\<close>
  is given on the one text the scenario parses.
\<close>

definition clinic_world :: "json world" where
  "clinic_world =
     \<lparr>dbms = (\<lambda>db. Inr clinic_catalog),
      classifier = (\<lambda>ts. ApiFails (Error (str ''connect ECONNREFUSED''))),
      organizer_build = (\<lambda>ts. ApiContent (Some organizer_answer)),
      organizer_repair = (\<lambda>ts. ApiContent (Some organizer_answer)),
      JSON_parse_items = (\<lambda>s. None),
      JSON_parse_node = (\<lambda>s. if s = organizer_json then Some organizer_tree else None),
      JSON_parse_tree = json_to_VirtualTree,
      JSON_stringify = VirtualTree_to_json,
      writeFileSync_fails = False\<rparr>"





definition no_key :: process_env where
  "no_key = \<lparr>OPENAI_API_KEY = None, ALLOW_NON_SELECT_QUERIES = None, DB_DATABASE = Some (str ''clinic'')\<rparr>"

definition with_key :: process_env where
  "with_key =
     \<lparr>OPENAI_API_KEY = Some (str ''sk-test''), ALLOW_NON_SELECT_QUERIES = None,
      DB_DATABASE = Some (str ''clinic'')\<rparr>"

section \<open>Properties of the query gateway\<close>

lemma ci_prefix_iff:
  "ci_prefix p cs \<longleftrightarrow>
     (\<exists>kw rest. cs = kw @ rest \<and> map canonicalize kw = map canonicalize p)"
proof (induction p cs rule: ci_prefix.induct)
  case (1 cs)
  then show ?case by simp
next
  case (2 p ps)
  then show ?case by simp
next
  case (3 p ps c cs)
  show ?case
  proof
    assume "ci_prefix (p # ps) (c # cs)"
    then have c: "canonicalize c = canonicalize p" and "ci_prefix ps cs" by simp_all
    with 3 obtain kw rest where "cs = kw @ rest" "map canonicalize kw = map canonicalize ps"
      by blast
    with c have "c # cs = (c # kw) @ rest \<and> map canonicalize (c # kw) = map canonicalize (p # ps)"
      by simp
    then show "\<exists>kw rest. c # cs = kw @ rest \<and> map canonicalize kw = map canonicalize (p # ps)"
      by blast
  next
    assume "\<exists>kw rest. c # cs = kw @ rest \<and> map canonicalize kw = map canonicalize (p # ps)"
    then obtain kw rest where a: "c # cs = kw @ rest"
      and b: "map canonicalize kw = map canonicalize (p # ps)" by blast
    from b obtain k kw' where kw: "kw = k # kw'" by (cases kw) auto
    with a b have "c = k" "cs = kw' @ rest" "canonicalize k = canonicalize p"
      "map canonicalize kw' = map canonicalize ps" by simp_all
    with 3 show "ci_prefix (p # ps) (c # cs)" by auto
  qed
qed

lemma canonicalize_select: "map canonicalize (str ''select'') = str ''SELECT''"
  by (simp add: str_def canonicalize_def)

lemma canonicalize_S_not_whitespace: "canonicalize c = 83 \<Longrightarrow> \<not> js_whitespace c"
  by (auto simp: canonicalize_def js_whitespace_def split: if_splits)

lemma select_regex_test_iff: "select_regex_test s \<longleftrightarrow> begins_with_select s"
proof
  assume "select_regex_test s"
  then obtain kw rest where "dropWhile js_whitespace s = kw @ rest"
    and kw: "map canonicalize kw = str ''SELECT''"
    unfolding select_regex_test_def ci_prefix_iff canonicalize_select by blast
  then have "s = takeWhile js_whitespace s @ kw @ rest"
    by (metis takeWhile_dropWhile_id)
  moreover have "list_all js_whitespace (takeWhile js_whitespace s)"
    by (simp add: list_all_iff) (meson set_takeWhileD)
  ultimately show "begins_with_select s"
    unfolding begins_with_select_def using kw by blast
next
  assume "begins_with_select s"
  then obtain ws kw rest where s: "s = ws @ kw @ rest" and ws: "list_all js_whitespace ws"
    and kw: "map canonicalize kw = str ''SELECT''"
    unfolding begins_with_select_def by blast
  from kw obtain k kw' where k: "kw = k # kw'" "canonicalize k = 83"
    by (cases kw) (auto simp: str_def)
  then have "\<not> js_whitespace k" by (simp add: canonicalize_S_not_whitespace)
  with s ws k have "dropWhile js_whitespace s = kw @ rest"
    by (simp add: list_all_iff dropWhile_append2)
  with kw show "select_regex_test s"
    unfolding select_regex_test_def ci_prefix_iff canonicalize_select by blast
qed

text \<open>
  Claim C1.  In read-only mode (\<open>allowNonSelect\<close> false) the handler hands the statement
  to the execution layer exactly when it begins, after optional white space, with the
  letters of SELECT in any case, and then answers with what the execution layer
  returns for this statement: its rows, or the text of its error.  Every other
  statement is refused by throwing \<open>McpError InvalidParams\<close> and the execution layer is
  not called.  When writes are allowed, every statement is handed on and answered in
  the same way.
\<close>

theorem query_database_read_only_gate:
  "(\<not> allowNonSelect env \<longrightarrow>
      (begins_with_select s \<longrightarrow>
         query_database env query (Some s) =
           (case query s of
              Inr rows \<Rightarrow> (Inr (Content rows), [s])
            | Inl error \<Rightarrow> (Inr (ErrorContent error), [s]))) \<and>
      (\<not> begins_with_select s \<longrightarrow>
         query_database env query (Some s) =
           (Inl (McpError InvalidParams
              (str ''Only SELECT queries are allowed in read-only mode.'')), [])) \<and>
      (snd (query_database env query (Some s)) = [s] \<longleftrightarrow> begins_with_select s)) \<and>
   (allowNonSelect env \<longrightarrow>
      query_database env query (Some s) =
        (case query s of
           Inr rows \<Rightarrow> (Inr (Content rows), [s])
         | Inl error \<Rightarrow> (Inr (ErrorContent error), [s])))"
  by (simp add: query_database_def String_of_def select_regex_test_iff Let_def split: sum.splits)

theorem query_database_read_only_gate_witness:
  "begins_with_select (str ''  select 1'') \<and>
   query_database \<lparr>OPENAI_API_KEY = None, ALLOW_NON_SELECT_QUERIES = None, DB_DATABASE = None\<rparr>
          (\<lambda>q. if q = str ''  select 1'' then Inr [str ''1''] else Inl (Error (str ''ER_PARSE_ERROR'')))
          (Some (str ''  select 1'')) =
     (Inr (Content [str ''1'']), [str ''  select 1'']) \<and>
   \<not> begins_with_select (str ''DELETE FROM t'') \<and>
   query_database \<lparr>OPENAI_API_KEY = None, ALLOW_NON_SELECT_QUERIES = None, DB_DATABASE = None\<rparr>
          (\<lambda>q. if q = str ''  select 1'' then Inr [str ''1''] else Inl (Error (str ''ER_PARSE_ERROR'')))
          (Some (str ''DELETE FROM t'')) =
     (Inl (McpError InvalidParams (str ''Only SELECT queries are allowed in read-only mode.'')), []) \<and>
   query_database \<lparr>OPENAI_API_KEY = None, ALLOW_NON_SELECT_QUERIES = Some (str ''true''), DB_DATABASE = None\<rparr>
          (\<lambda>q. if q = str ''  select 1'' then Inr [str ''1''] else Inl (Error (str ''ER_PARSE_ERROR'')))
          (Some (str ''DELETE FROM t'')) =
     (Inr (ErrorContent (Error (str ''ER_PARSE_ERROR''))), [str ''DELETE FROM t''])"
proof -
  let ?ro = "\<lparr>OPENAI_API_KEY = None, ALLOW_NON_SELECT_QUERIES = None, DB_DATABASE = None\<rparr>"
  let ?rw = "\<lparr>OPENAI_API_KEY = None, ALLOW_NON_SELECT_QUERIES = Some (str ''true''), DB_DATABASE = None\<rparr>"
  let ?q = "\<lambda>q. if q = str ''  select 1'' then Inr [str ''1''] else Inl (Error (str ''ER_PARSE_ERROR''))"
  have ro: "\<not> allowNonSelect ?ro" by (simp add: allowNonSelect_def)
  have rw: "allowNonSelect ?rw" by (simp add: allowNonSelect_def)
  have sel: "select_regex_test (str ''  select 1'')"
    by (simp add: select_regex_test_def str_def js_whitespace_def canonicalize_def)
  have del: "\<not> select_regex_test (str ''DELETE FROM t'')"
    by (simp add: select_regex_test_def str_def js_whitespace_def canonicalize_def)
  have ne: "str ''DELETE FROM t'' \<noteq> str ''  select 1''" by (simp add: str_def)
  note t1 = query_database_read_only_gate [of ?ro "str ''  select 1''" ?q]
  note t2 = query_database_read_only_gate [of ?ro "str ''DELETE FROM t''" ?q]
  note t3 = query_database_read_only_gate [of ?rw "str ''DELETE FROM t''" ?q]
  have b1: "begins_with_select (str ''  select 1'')"
    using sel by (simp add: select_regex_test_iff)
  have b2: "\<not> begins_with_select (str ''DELETE FROM t'')"
    using del by (simp add: select_regex_test_iff)
  have r1: "query_database ?ro ?q (Some (str ''  select 1'')) =
      (Inr (Content [str ''1'']), [str ''  select 1''])"
    using t1 ro b1 by simp
  have r2: "query_database ?ro ?q (Some (str ''DELETE FROM t'')) =
      (Inl (McpError InvalidParams (str ''Only SELECT queries are allowed in read-only mode.'')), [])"
    using t2 ro b2 by simp
  have r3: "query_database ?rw ?q (Some (str ''DELETE FROM t'')) =
      (Inr (ErrorContent (Error (str ''ER_PARSE_ERROR''))), [str ''DELETE FROM t''])"
    using t3 rw ne by simp
  from b1 r1 b2 r2 r3 show ?thesis by (intro conjI)
qed



section \<open>Properties of the path assignment\<close>

lemma addPaths_addPaths: "addPaths (addPaths n q) p = addPaths n p"
proof (induction n arbitrary: p q)
  case (PathNode nm p0 t cs tn d)
  show ?case
  proof (cases cs)
    case None
    then show ?thesis by simp
  next
    case (Some l)
    with PathNode have "\<And>c p q. c \<in> set l \<Longrightarrow> addPaths (addPaths c q) p = addPaths c p"
      by simp
    with Some show ?thesis by (simp add: Let_def)
  qed
qed

lemma addPaths_forget_paths: "addPaths (forget_paths n) p = addPaths n p"
proof (induction n arbitrary: p)
  case (PathNode nm p0 t cs tn d)
  show ?case
  proof (cases cs)
    case None
    then show ?thesis by simp
  next
    case (Some l)
    with PathNode have "\<And>c p. c \<in> set l \<Longrightarrow> addPaths (forget_paths c) p = addPaths c p"
      by simp
    with Some show ?thesis by (simp add: Let_def)
  qed
qed

lemma addPaths_set_path: "addPaths (set_path q n) p = addPaths n p"
  by (cases n) (simp add: set_path_def)

text \<open>
  Claim C8.  Assigning the paths a second time changes nothing, and the paths
  assigned do not depend on the paths the raw tree came with: a run on the tree with
  its paths blanked gives the same result.
\<close>

theorem assign_paths_idempotent:
  "assign_paths (assign_paths r) = assign_paths r \<and>
   assign_paths (forget_paths r) = assign_paths r"
  by (simp add: assign_paths_def addPaths_set_path addPaths_addPaths addPaths_forget_paths)

text \<open>
  What the path assignment achieves: the root always ends with the path \<^verbatim>\<open>/\<close>, and when
  the organizer named the root \<^verbatim>\<open>/\<close>, as it was told to, and no child of the root is
  named \<^verbatim>\<open>/\<close> or has the empty name, every node carries the path joined from the
  names below the root.
\<close>

lemma assign_paths_root_path: "path (assign_paths r) = str ''/''"
  by (simp add: assign_paths_def set_path_def)

lemma name_addPaths: "name (addPaths n p) = name n"
  by (cases n) (simp add: Let_def)

lemma spec_path_snoc:
  "ns \<noteq> [] \<Longrightarrow> spec_path (ns @ [nm]) = spec_path ns @ str ''/'' @ nm"
  by (simp add: spec_path_def)

lemma spec_path_nonempty: "spec_path ns \<noteq> []"
  by (cases ns) (simp_all add: spec_path_def str_def)

lemma spec_path_snoc_not_root: "ns \<noteq> [] \<Longrightarrow> spec_path (ns @ [nm]) \<noteq> str ''/''"
proof -
  assume "ns \<noteq> []"
  then have "length (spec_path (ns @ [nm])) \<ge> 2"
    using spec_path_nonempty [of ns]
    by (cases "spec_path ns") (simp_all add: spec_path_snoc str_def)
  then show ?thesis by (auto simp: str_def)
qed

lemma node_paths_below:
  "ns \<noteq> [] \<Longrightarrow> spec_path ns \<noteq> str ''/'' \<Longrightarrow>
   list_all (\<lambda>(names, p). p = spec_path names)
     (node_paths (addPaths n (spec_path ns)) (ns @ [name n]))"
proof (induction n arbitrary: ns)
  case (PathNode nm p t cs tn d)
  let ?ns = "ns @ [nm]"
  have here: "spec_path ns @ str ''/'' @ nm = spec_path ?ns"
    using PathNode.prems(1) by (simp add: spec_path_snoc)
  have ne: "?ns \<noteq> []" by simp
  have nr: "spec_path ?ns \<noteq> str ''/''"
    using PathNode.prems(1) by (rule spec_path_snoc_not_root)
  show ?case
  proof (cases cs)
    case None
    with PathNode.prems here show ?thesis by (simp add: Let_def)
  next
    case (Some l)
    have "\<And>c. c \<in> set l \<Longrightarrow>
            list_all (\<lambda>(names, p). p = spec_path names)
              (node_paths (addPaths c (spec_path ?ns)) (?ns @ [name c]))"
      using PathNode.IH [OF _ _ ne nr] Some by simp
    then have "list_all (\<lambda>c. list_all (\<lambda>(names, p). p = spec_path names)
                 (node_paths (addPaths c (spec_path ?ns)) (?ns @ [name c]))) l"
      by (simp add: list_all_iff)
    with Some PathNode.prems here show ?thesis
      by (simp add: Let_def list_all_iff name_addPaths comp_def)
  qed
qed

lemma node_paths_child_of_root:
  assumes "name c \<noteq> str ''/''" and "name c \<noteq> []"
  shows "list_all (\<lambda>(names, p). p = spec_path names)
           (node_paths (addPaths c (str ''/'')) [name c])"
proof (cases c)
  case (PathNode nm p t cs tn d)
  have sp: "spec_path [nm] = str ''/'' @ nm" by (simp add: spec_path_def)
  have nr: "spec_path [nm] \<noteq> str ''/''" using assms(2) PathNode by (simp add: sp)
  show ?thesis
  proof (cases cs)
    case None
    with PathNode assms sp show ?thesis by (simp add: Let_def)
  next
    case (Some l)
    have "\<And>x. x \<in> set l \<Longrightarrow>
            list_all (\<lambda>(names, p). p = spec_path names)
              (node_paths (addPaths x (spec_path [nm])) ([nm] @ [name x]))"
      using node_paths_below [of "[nm]"] nr by simp
    with Some PathNode assms sp show ?thesis
      by (simp add: Let_def list_all_iff name_addPaths comp_def)
  qed
qed

lemma assign_paths_canonical:
  assumes "name r = str ''/''" and "str ''/'' \<notin> child_names r" and "[] \<notin> child_names r"
  shows "paths_canonical (assign_paths r)"
proof (cases r)
  case (PathNode nm p t cs tn d)
  show ?thesis
  proof (cases cs)
    case None
    with PathNode assms(1) show ?thesis
      by (simp add: paths_canonical_def assign_paths_def set_path_def Let_def spec_path_def)
  next
    case (Some l)
    have "\<And>c. c \<in> set l \<Longrightarrow> name c \<noteq> str ''/'' \<and> name c \<noteq> []"
      using assms(2,3) PathNode Some by (auto simp: child_names_def image_iff)
    then have "\<And>c. c \<in> set l \<Longrightarrow>
        list_all (\<lambda>(names, p). p = spec_path names) (node_paths (addPaths c (str ''/'')) [name c])"
      using node_paths_child_of_root by blast
    with PathNode Some assms(1) show ?thesis
      by (simp add: paths_canonical_def assign_paths_def set_path_def Let_def spec_path_def
          list_all_iff name_addPaths comp_def)
  qed
qed

text \<open>
  Claim C3, at a root the organizer did not name \<^verbatim>\<open>/\<close>.  The root's path is set to
  \<^verbatim>\<open>/\<close> after its children were given paths below \<^verbatim>\<open>/root\<close>: the file \<^verbatim>\<open>a\<close>, a child
  of the root, ends with the path \<^verbatim>\<open>/root/a\<close> and not \<^verbatim>\<open>/a\<close>, so the paths of the tree
  are not the ones joined from the names below the root.  The listing of the root
  shows the path \<^verbatim>\<open>/root/a\<close>, and a request for that path is answered with an error.
\<close>

theorem assign_paths_misnamed_root:
  "assign_paths misnamed_tree =
     PathNode (str ''root'') (str ''/'') Directory
       (Some [PathNode (str ''a'') (str ''/root/a'') File None (Some (str ''a'')) None]) None None \<and>
   spec_path [str ''a''] = str ''/a'' \<and>
   \<not> paths_canonical (assign_paths misnamed_tree) \<and>
   fst (schema_ls no_key clinic_world
          \<lparr>tree = Some (clinic_tree\<lparr>root := Some (assign_paths misnamed_tree)\<rparr>), tables_proto = None, cache_file = None\<rparr>
          (Some (str ''/''))) =
     Content [\<lparr>entry_name = str ''a'', entry_type = File, entry_path = str ''/root/a'',
               entry_tableName = Some (str ''a''), entry_description = None\<rparr>] \<and>
   fst (schema_ls no_key clinic_world
          \<lparr>tree = Some (clinic_tree\<lparr>root := Some (assign_paths misnamed_tree)\<rparr>), tables_proto = None, cache_file = None\<rparr>
          (Some (str ''/root/a''))) =
     ErrorContent (McpError InvalidParams
       (str ''Path segment '' @ [39] @ str ''root'' @ [39] @ str '' not found in '' @
        [39] @ str ''/'' @ [39]))"
  by (simp add: assign_paths_def set_path_def str_def Let_def paths_canonical_def spec_path_def
      misnamed_tree_def schema_ls_def ensureTree_def repair_root_def path_argument_def truthy_def
      cleanPath_def list_node_def child_entry_def or_else_def clinic_tree_def)

section \<open>Properties of the navigation\<close>

lemma ensureTree_rooted:
  "tree st = Some t \<Longrightarrow> root t = Some r \<Longrightarrow> ensureTree env w st = Inr (t, st)"
  by (simp add: ensureTree_def repair_root_def)

lemma descend_resolves:
  "resolves r before n \<Longrightarrow> descend request r (before @ rest) = descend request n rest"
  by (induction rule: resolves.induct) simp_all

lemma find_None_names: "find (\<lambda>c. name c = part) cs = None \<longleftrightarrow> part \<notin> name ` set cs"
  by (auto simp: find_None_iff)

lemma descend_unmatched:
  assumes "part \<notin> child_names n"
  shows "descend request n (part # rest) =
           Inl (McpError InvalidParams
             (if children n = None then str ''Path not found: '' @ request
              else str ''Path segment '' @ [39] @ part @ [39] @ str '' not found in '' @
                   [39] @ path n @ [39]))"
proof (cases "children n")
  case None
  then show ?thesis by simp
next
  case (Some cs)
  with assms have "find (\<lambda>c. name c = part) cs = None"
    by (simp add: child_names_def find_None_names)
  with Some show ?thesis by simp
qed

lemma schema_ls_rooted:
  assumes "tree st = Some t" and "root t = Some r"
  shows "schema_ls env w st arg =
           (case (if cleanPath (path_argument arg) \<noteq> []
                  then descend (path_argument arg) r (split 47 (cleanPath (path_argument arg)))
                  else Inr r) of
              Inl e \<Rightarrow> (ErrorContent e, st)
            | Inr currentNode \<Rightarrow> (Content (list_node t currentNode), st))"
  using assms by (simp add: schema_ls_def ensureTree_rooted Let_def)

text \<open>
  Claim C6.  On a tree with a root, take a request path and its first segment that
  matches no child name at its level: the segments before it resolve to a node, and
  no child of that node has the segment as its name.  The request is answered with an
  error text, never with a listing: an \<open>McpError InvalidParams\<close> whose message names
  the request path when the node has no \<open>children\<close>, and the segment and the node's
  path otherwise.
\<close>

theorem schema_ls_unmatched_segment:
  assumes "tree st = Some t" and "root t = Some r"
    and "cleanPath (path_argument arg) \<noteq> []"
    and "split 47 (cleanPath (path_argument arg)) = before @ part # rest"
    and "resolves r before n" and "part \<notin> child_names n"
  shows "schema_ls env w st arg =
           (ErrorContent (McpError InvalidParams
              (if children n = None then str ''Path not found: '' @ path_argument arg
               else str ''Path segment '' @ [39] @ part @ [39] @ str '' not found in '' @
                    [39] @ path n @ [39])), st)"
proof -
  have "descend (path_argument arg) r (split 47 (cleanPath (path_argument arg))) =
          Inl (McpError InvalidParams
            (if children n = None then str ''Path not found: '' @ path_argument arg
             else str ''Path segment '' @ [39] @ part @ [39] @ str '' not found in '' @
                  [39] @ path n @ [39]))"
    unfolding assms(4) descend_resolves [OF assms(5)] by (rule descend_unmatched [OF assms(6)])
  then show ?thesis
    using assms(3) by (simp add: schema_ls_rooted [OF assms(1,2)])
qed

lemma clinic_rooted:
  "tree \<lparr>tree = Some (clinic_tree\<lparr>root := Some clinic_root\<rparr>), tables_proto = None, cache_file = None\<rparr> =
     Some (clinic_tree\<lparr>root := Some clinic_root\<rparr>) \<and>
   root (clinic_tree\<lparr>root := Some clinic_root\<rparr>) = Some clinic_root"
  by simp

theorem schema_ls_unmatched_segment_witness:
  "schema_ls no_key clinic_world
     \<lparr>tree = Some (clinic_tree\<lparr>root := Some clinic_root\<rparr>), tables_proto = None, cache_file = None\<rparr>
     (Some (str ''/nope'')) =
   (ErrorContent (McpError InvalidParams
      (str ''Path segment '' @ [39] @ str ''nope'' @ [39] @ str '' not found in '' @
       [39] @ str ''/'' @ [39])),
    \<lparr>tree = Some (clinic_tree\<lparr>root := Some clinic_root\<rparr>), tables_proto = None, cache_file = None\<rparr>) \<and>
   schema_ls no_key clinic_world
     \<lparr>tree = Some (clinic_tree\<lparr>root := Some clinic_root\<rparr>), tables_proto = None, cache_file = None\<rparr>
     (Some (str ''/patients/id'')) =
   (ErrorContent (McpError InvalidParams (str ''Path not found: /patients/id'')),
    \<lparr>tree = Some (clinic_tree\<lparr>root := Some clinic_root\<rparr>), tables_proto = None, cache_file = None\<rparr>)"
proof -
  let ?file = "PathNode (str ''patients'') (str ''/patients'') File None (Some (str ''patients'')) None"
  have c1: "cleanPath (path_argument (Some (str ''/nope''))) \<noteq> []"
    and s1: "split 47 (cleanPath (path_argument (Some (str ''/nope'')))) = [] @ str ''nope'' # []"
    and c2: "cleanPath (path_argument (Some (str ''/patients/id''))) \<noteq> []"
    and s2: "split 47 (cleanPath (path_argument (Some (str ''/patients/id'')))) =
               [str ''patients''] @ str ''id'' # []"
    by (simp_all add: cleanPath_def path_argument_def truthy_def str_def)
  have r1: "resolves clinic_root [] clinic_root" by (rule resolves_here)
  have u1: "str ''nope'' \<notin> child_names clinic_root"
    by (simp add: child_names_def clinic_root_def str_def)
  have r2: "resolves clinic_root [str ''patients''] ?file"
  proof (rule resolves_step)
    show "children clinic_root = Some [?file]" by (simp add: clinic_root_def)
    show "find (\<lambda>c. name c = str ''patients'') [?file] = Some ?file" by simp
    show "resolves ?file [] ?file" by (rule resolves_here)
  qed
  have u2: "str ''id'' \<notin> child_names ?file" by (simp add: child_names_def)
  have p: "path clinic_root = str ''/'' \<and> children clinic_root \<noteq> None \<and> children ?file = None \<and>
           path_argument (Some (str ''/patients/id'')) = str ''/patients/id''"
    by (simp add: clinic_root_def path_argument_def truthy_def str_def)
  show ?thesis
    using schema_ls_unmatched_segment
        [OF clinic_rooted [THEN conjunct1] clinic_rooted [THEN conjunct2] c1 s1 r1 u1,
         of no_key clinic_world]
      schema_ls_unmatched_segment
        [OF clinic_rooted [THEN conjunct1] clinic_rooted [THEN conjunct2] c2 s2 r2 u2,
         of no_key clinic_world]
      p
    by (simp add: str_def)
qed

text \<open>
  Claim C10.  On a tree with a root: when the path resolves to a directory whose
  \<open>children\<close> are absent or empty, the answer is the empty listing; when a node
  without \<open>children\<close> is reached and segments remain, the answer is the error
  \<^verbatim>\<open>Path not found\<close> with the request path.
\<close>

theorem schema_ls_childless:
  assumes "tree st = Some t" and "root t = Some r"
  shows "(resolves r (if cleanPath (path_argument arg) = [] then []
                      else split 47 (cleanPath (path_argument arg))) n \<and>
          type n = Directory \<and> (children n = None \<or> children n = Some []) \<longrightarrow>
            schema_ls env w st arg = (Content [], st)) \<and>
         (cleanPath (path_argument arg) \<noteq> [] \<and>
          split 47 (cleanPath (path_argument arg)) = before @ part # rest \<and>
          resolves r before n \<and> children n = None \<longrightarrow>
            schema_ls env w st arg =
              (ErrorContent (McpError InvalidParams
                 (str ''Path not found: '' @ path_argument arg)), st))"
proof (intro conjI impI)
  let ?request = "path_argument arg"
  assume a: "resolves r (if cleanPath ?request = [] then [] else split 47 (cleanPath ?request)) n \<and>
          type n = Directory \<and> (children n = None \<or> children n = Some [])"
  then have "(if cleanPath ?request \<noteq> [] then descend ?request r (split 47 (cleanPath ?request))
              else Inr r) = Inr n"
    using descend_resolves [of r _ n ?request "[]"] by (auto elim: resolves.cases)
  with a show "schema_ls env w st arg = (Content [], st)"
    by (auto simp: schema_ls_rooted [OF assms] list_node_def)
next
  let ?request = "path_argument arg"
  assume a: "cleanPath ?request \<noteq> [] \<and> split 47 (cleanPath ?request) = before @ part # rest \<and>
          resolves r before n \<and> children n = None"
  then have "descend ?request r (split 47 (cleanPath ?request)) =
               Inl (McpError InvalidParams (str ''Path not found: '' @ ?request))"
    using descend_resolves [of r before n ?request "part # rest"] by simp
  with a show "schema_ls env w st arg =
              (ErrorContent (McpError InvalidParams (str ''Path not found: '' @ ?request)), st)"
    by (simp add: schema_ls_rooted [OF assms])
qed


lemma sparse_rooted:
  "tree sparse_state = Some (clinic_tree\<lparr>root := Some sparse_root\<rparr>) \<and>
   root (clinic_tree\<lparr>root := Some sparse_root\<rparr>) = Some sparse_root"
  by (simp add: sparse_state_def)

lemma resolves_bare: "resolves sparse_root [str ''bare''] bare_directory"
proof (rule resolves_step)
  show "children sparse_root = Some [empty_directory, bare_directory]"
    by (simp add: sparse_root_def)
  show "find (\<lambda>c. name c = str ''bare'') [empty_directory, bare_directory] = Some bare_directory"
    by (simp add: empty_directory_def bare_directory_def str_def)
  show "resolves bare_directory [] bare_directory" by (rule resolves_here)
qed

lemma resolves_empty: "resolves sparse_root [str ''empty''] empty_directory"
proof (rule resolves_step)
  show "children sparse_root = Some [empty_directory, bare_directory]"
    by (simp add: sparse_root_def)
  show "find (\<lambda>c. name c = str ''empty'') [empty_directory, bare_directory] = Some empty_directory"
    by (simp add: empty_directory_def bare_directory_def str_def)
  show "resolves empty_directory [] empty_directory" by (rule resolves_here)
qed

theorem schema_ls_childless_witness:
  "schema_ls no_key clinic_world sparse_state (Some (str ''/bare'')) = (Content [], sparse_state) \<and>
   schema_ls no_key clinic_world sparse_state (Some (str ''/empty/'')) = (Content [], sparse_state) \<and>
   schema_ls no_key clinic_world sparse_state (Some (str ''/bare/x'')) =
     (ErrorContent (McpError InvalidParams (str ''Path not found: /bare/x'')), sparse_state)"
proof -
  have p1: "path_argument (Some (str ''/bare'')) = str ''/bare'' \<and>
            cleanPath (str ''/bare'') = str ''bare'' \<and> split 47 (str ''bare'') = [str ''bare'']"
    by (simp add: cleanPath_def path_argument_def truthy_def str_def)
  have p2: "path_argument (Some (str ''/empty/'')) = str ''/empty/'' \<and>
            cleanPath (str ''/empty/'') = str ''empty'' \<and> split 47 (str ''empty'') = [str ''empty'']"
    by (simp add: cleanPath_def path_argument_def truthy_def str_def)
  have p3: "path_argument (Some (str ''/bare/x'')) = str ''/bare/x'' \<and>
            cleanPath (str ''/bare/x'') = str ''bare/x'' \<and>
            split 47 (str ''bare/x'') = [str ''bare''] @ str ''x'' # []"
    by (simp add: cleanPath_def path_argument_def truthy_def str_def)
  have ne: "str ''bare'' \<noteq> []" "str ''empty'' \<noteq> []" "str ''bare/x'' \<noteq> []"
    by (simp_all add: str_def)
  have b: "type bare_directory = Directory \<and> children bare_directory = None"
    by (simp add: bare_directory_def)
  have e: "type empty_directory = Directory \<and> children empty_directory = Some []"
    by (simp add: empty_directory_def)
  have "schema_ls no_key clinic_world sparse_state (Some (str ''/bare'')) = (Content [], sparse_state)"
    using schema_ls_childless [OF sparse_rooted [THEN conjunct1] sparse_rooted [THEN conjunct2],
        of "Some (str ''/bare'')" bare_directory no_key clinic_world]
      resolves_bare p1 ne b by simp
  moreover
  have "schema_ls no_key clinic_world sparse_state (Some (str ''/empty/'')) = (Content [], sparse_state)"
    using schema_ls_childless [OF sparse_rooted [THEN conjunct1] sparse_rooted [THEN conjunct2],
        of "Some (str ''/empty/'')" empty_directory no_key clinic_world]
      resolves_empty p2 ne e by simp
  moreover
  have "schema_ls no_key clinic_world sparse_state (Some (str ''/bare/x'')) =
     (ErrorContent (McpError InvalidParams (str ''Path not found: /bare/x'')), sparse_state)"
    using schema_ls_childless [OF sparse_rooted [THEN conjunct1] sparse_rooted [THEN conjunct2],
        of "Some (str ''/bare/x'')" bare_directory no_key clinic_world "[str ''bare'']" "str ''x''" "[]"]
      resolves_bare p3 ne b by (simp add: str_def)
  ultimately show ?thesis by simp
qed


section \<open>Properties of the assembly\<close>

lemma keys_obj_update: "map fst (obj_update k v m) = map fst m"
  by (induction m) auto

lemma map_of_obj_update_at:
  "map_of (obj_update k v m) x = (if x = k \<and> k \<in> fst ` set m then Some v else map_of m x)"
  by (induction m) force+

lemma map_of_obj_update:
  "k \<in> fst ` set m \<Longrightarrow> map_of (obj_update k v m) = (map_of m)(k \<mapsto> v)"
  by (simp add: fun_eq_iff map_of_obj_update_at)

lemma dom_obj_insert: "fst ` set (obj_insert k v m) = insert k (fst ` set m)"
  by (induction m) auto

lemma map_of_obj_insert_at:
  "k \<notin> fst ` set m \<Longrightarrow> map_of (obj_insert k v m) x = (if x = k then Some v else map_of m x)"
  by (induction m) force+

lemma map_of_obj_insert:
  "k \<notin> fst ` set m \<Longrightarrow> map_of (obj_insert k v m) = (map_of m)(k \<mapsto> v)"
  by (simp add: fun_eq_iff map_of_obj_insert_at)

lemma distinct_obj_insert:
  "k \<notin> fst ` set m \<Longrightarrow> distinct (map fst m) \<Longrightarrow> distinct (map fst (obj_insert k v m))"
proof (induction m)
  case Nil
  then show ?case by simp
next
  case (Cons p m)
  have "fst p \<notin> fst ` set (obj_insert k v m)"
    using Cons.prems by (auto simp: dom_obj_insert)
  with Cons show ?case by auto
qed

lemma map_of_obj_set: "map_of (obj_set k v m) = (map_of m)(k \<mapsto> v)"
  by (simp add: obj_set_def map_of_obj_update map_of_obj_insert)


lemma keys_obj_set_present:
  "k \<in> fst ` set m \<Longrightarrow> map fst (obj_set k v m) = map fst m"
  by (simp add: obj_set_def keys_obj_update)

lemma distinct_obj_set:
  "distinct (map fst m) \<Longrightarrow> distinct (map fst (obj_set k v m))"
  by (simp add: obj_set_def keys_obj_update distinct_obj_insert)



lemma distinct_foldl_add_table:
  "distinct (map fst (own_props m)) \<Longrightarrow> distinct (map fst (own_props (foldl add_table m rows)))"
  by (induction rows arbitrary: m) (simp_all add: add_table_def distinct_obj_set)

lemma fresh_foldl_add_table:
  "(\<And>k t. map_of (own_props m) k = Some t \<Longrightarrow> fresh_table k t) \<Longrightarrow>
   map_of (own_props (foldl add_table m rows)) k = Some t \<Longrightarrow> fresh_table k t"
proof (induction rows arbitrary: m)
  case Nil
  then show ?case by simp
next
  case (Cons row rows)
  have "\<And>k t. map_of (own_props (add_table m row)) k = Some t \<Longrightarrow> fresh_table k t"
    using Cons.prems(1)
    by (auto simp: add_table_def map_of_obj_set new_table_def fresh_table_def split: if_splits)
  then show ?case using Cons.IH [of "add_table m row"] Cons.prems(2) by simp
qed



lemma add_column_Inr:
  assumes "add_column m c = Inr m'"
  shows "map fst (own_props m') = map fst (own_props m)"
    and "map_of (own_props m') k =
           map_option (\<lambda>t. if COLUMN_TABLE_NAME c = k
                            then t\<lparr>columns := columns t @ [new_column c]\<rparr> else t)
             (map_of (own_props m) k)"
    and "str ''__proto__'' \<notin> fst ` set (own_props m) \<Longrightarrow>
         prototype m' =
           map_option (\<lambda>t. if COLUMN_TABLE_NAME c = str ''__proto__''
                            then t\<lparr>columns := columns t @ [new_column c]\<rparr> else t)
             (prototype m)"
proof -
  show "map fst (own_props m') = map fst (own_props m)"
  proof (cases "map_of (own_props m) (COLUMN_TABLE_NAME c)")
    case None
    then have "COLUMN_TABLE_NAME c \<notin> fst ` set (own_props m)"
      by (simp add: map_of_eq_None_iff)
    with assms None show ?thesis
      by (auto simp: add_column_def table_lookup_def Let_def split: option.splits if_splits)
  next
    case (Some tbl)
    then have "COLUMN_TABLE_NAME c \<in> fst ` set (own_props m)"
      by (metis map_of_eq_None_iff option.distinct(1))
    with assms Some
    have "own_props m' =
        obj_set (COLUMN_TABLE_NAME c) (tbl\<lparr>columns := columns tbl @ [new_column c]\<rparr>) (own_props m)"
      by (auto simp: add_column_def table_lookup_def Let_def)
    with \<open>COLUMN_TABLE_NAME c \<in> fst ` set (own_props m)\<close> show ?thesis
      by (simp add: keys_obj_set_present)
  qed
  show "map_of (own_props m') k =
           map_option (\<lambda>t. if COLUMN_TABLE_NAME c = k
                            then t\<lparr>columns := columns t @ [new_column c]\<rparr> else t)
             (map_of (own_props m) k)"
  proof (cases "map_of (own_props m) (COLUMN_TABLE_NAME c)")
    case None
    then have n: "COLUMN_TABLE_NAME c \<notin> fst ` set (own_props m)"
      by (simp add: map_of_eq_None_iff)
    have "own_props m' = own_props m"
      using assms None n
      by (auto simp: add_column_def table_lookup_def Let_def split: option.splits if_splits)
    with None show ?thesis
      by (cases "map_of (own_props m) k") auto
  next
    case (Some tbl)
    then have "COLUMN_TABLE_NAME c \<in> fst ` set (own_props m)"
      by (metis map_of_eq_None_iff option.distinct(1))
    with assms Some show ?thesis
      by (cases "map_of (own_props m) k")
        (auto simp: add_column_def table_lookup_def Let_def map_of_obj_set)
  qed
  show "prototype m' =
           map_option (\<lambda>t. if COLUMN_TABLE_NAME c = str ''__proto__''
                            then t\<lparr>columns := columns t @ [new_column c]\<rparr> else t)
             (prototype m)"
    if p: "str ''__proto__'' \<notin> fst ` set (own_props m)"
  proof (cases "map_of (own_props m) (COLUMN_TABLE_NAME c)")
    case None
    then have n: "COLUMN_TABLE_NAME c \<notin> fst ` set (own_props m)"
      by (simp add: map_of_eq_None_iff)
    with assms None show ?thesis
      by (cases "prototype m")
        (auto simp: add_column_def table_lookup_def Let_def split: if_splits)
  next
    case (Some tbl)
    then have "COLUMN_TABLE_NAME c \<in> fst ` set (own_props m)"
      by (metis map_of_eq_None_iff option.distinct(1))
    then have i: "COLUMN_TABLE_NAME c \<in> fst ` set (own_props m)" .
    with p have ne: "COLUMN_TABLE_NAME c \<noteq> str ''__proto__''" by force
    from assms Some i have "prototype m' = prototype m"
      by (auto simp: add_column_def table_lookup_def Let_def)
    with ne show ?thesis
      by (cases "prototype m") simp_all
  qed
qed



lemma foldl_throw_add_column_Inr:
  assumes "foldl_throw add_column m cs = Inr m'"
  shows "map fst (own_props m') = map fst (own_props m)"
    and "map_of (own_props m') k =
           map_option (\<lambda>t. t\<lparr>columns := columns t @
                                 map new_column [c \<leftarrow> cs. COLUMN_TABLE_NAME c = k]\<rparr>)
             (map_of (own_props m) k)"
    and "str ''__proto__'' \<notin> fst ` set (own_props m) \<Longrightarrow>
         prototype m' =
           map_option (\<lambda>t. t\<lparr>columns := columns t @
                                 map new_column [c \<leftarrow> cs. COLUMN_TABLE_NAME c = str ''__proto__'']\<rparr>)
             (prototype m)"
  using assms
proof (induction cs arbitrary: m)
  case Nil
  {
    case 1
    then show ?case by simp
  next
    case 2
    then show ?case by (simp add: option.map_ident)
  next
    case 3
    then show ?case by (simp add: option.map_ident)
  }
next
  case (Cons c cs)
  {
    case 1
    then obtain m1 where s: "add_column m c = Inr m1" and r: "foldl_throw add_column m1 cs = Inr m'"
      by (cases "add_column m c") auto
    from Cons.IH(1) [OF r] add_column_Inr(1) [OF s] show ?case by simp
  next
    case 2
    then obtain m1 where s: "add_column m c = Inr m1" and r: "foldl_throw add_column m1 cs = Inr m'"
      by (cases "add_column m c") auto
    show ?case
      unfolding Cons.IH(2) [OF r] add_column_Inr(2) [OF s]
      by (cases "map_of (own_props m) k") simp_all
  next
    case 3
    then obtain m1 where s: "add_column m c = Inr m1" and r: "foldl_throw add_column m1 cs = Inr m'"
      by (cases "add_column m c") auto
    have "fst ` set (own_props m1) = fst ` set (own_props m)"
      using add_column_Inr(1) [OF s] by (metis set_map)
    with 3 have k: "str ''__proto__'' \<notin> fst ` set (own_props m1)" by simp
    show ?case
      unfolding Cons.IH(3) [OF k r] add_column_Inr(3) [OF s 3(1)]
      by (cases "prototype m") simp_all
  }
qed



lemma other_not_inherited: "str ''other'' \<notin> set Object_prototype_names"
  by (simp add: Object_prototype_names_def str_def)

lemma foldl_throw_add_to_category_other:
  assumes "\<And>t. t \<in> set ts \<Longrightarrow> llm_category t = None"
  shows "foldl_throw add_to_category [(str ''other'', before)] ts =
           Inr [(str ''other'', before @ ts)]"
  using assms
proof (induction ts arbitrary: before)
  case Nil
  then show ?case by simp
next
  case (Cons t ts)
  have "add_to_category [(str ''other'', before)] t = Inr [(str ''other'', before @ [t])]"
    using Cons.prems by (simp add: add_to_category_def truthy_def obj_set_def)
  with Cons show ?case by simp
qed

lemma foldl_throw_add_to_category_uncategorized:
  assumes "\<And>t. t \<in> set ts \<Longrightarrow> llm_category t = None"
  shows "foldl_throw add_to_category [] ts =
           Inr (if ts = [] then [] else [(str ''other'', ts)])"
proof (cases ts)
  case Nil
  then show ?thesis by simp
next
  case (Cons t ts')
  then have "add_to_category [] t = Inr [(str ''other'', [t])]"
    using assms by (simp add: add_to_category_def truthy_def obj_set_def other_not_inherited)
  with Cons foldl_throw_add_to_category_other [of ts' "[t]"] assms show ?thesis by simp
qed

lemma zip_keys_values: "zip (map fst m) (Object_values m) = m"
  by (simp add: Object_values_def zip_map_fst_snd)



lemma table_map_distinct:
  assumes "table_map cat = Inr tm"
  shows "distinct (map fst (own_props tm))"
  using foldl_throw_add_column_Inr(1) [OF assms [unfolded table_map_def]]
    distinct_foldl_add_table [of "\<lparr>own_props = [], prototype = None\<rparr>" "cat_tables cat"]
  by simp

lemma table_map_own:
  assumes "table_map cat = Inr tm" and "map_of (own_props tm) k = Some t"
  shows "table_name t = k \<and> llm_category t = None \<and> llm_description t = None \<and>
         columns t = map new_column [c \<leftarrow> cat_columns cat. COLUMN_TABLE_NAME c = k]"
proof -
  let ?m0 = "foldl add_table \<lparr>own_props = [], prototype = None\<rparr> (cat_tables cat)"
  from assms(2) obtain t0 where t0: "map_of (own_props ?m0) k = Some t0"
    and t: "t = t0\<lparr>columns := columns t0 @
                      map new_column [c \<leftarrow> cat_columns cat. COLUMN_TABLE_NAME c = k]\<rparr>"
    unfolding foldl_throw_add_column_Inr(2) [OF assms(1) [unfolded table_map_def]] by auto
  have "fresh_table k t0"
    using fresh_foldl_add_table [of "\<lparr>own_props = [], prototype = None\<rparr>" "cat_tables cat" k t0] t0
    by simp
  with t show ?thesis by (simp add: fresh_table_def)
qed




lemma table_map_values:
  assumes "table_map cat = Inr tm" and "t \<in> set (Object_values (own_props tm))"
  shows "llm_category t = None" and "table_name t \<in> fst ` set (own_props tm)"
proof -
  from assms(2) obtain k where k: "(k, t) \<in> set (own_props tm)"
    by (auto simp: Object_values_def)
  then have "map_of (own_props tm) k = Some t"
    using table_map_distinct [OF assms(1)] by (simp add: map_of_is_SomeI)
  from table_map_own [OF assms(1) this] k
  show "llm_category t = None" and "table_name t \<in> fst ` set (own_props tm)"
    by force+
qed

lemma buildVirtualTree_uncategorized:
  assumes "introspect env w database_arg = Inr cat" and "table_map cat = Inr tm"
    and "useTableList env w (own_props tm) = Object_values (own_props tm)"
  shows "buildVirtualTree env w database_arg =
           Inr (\<lparr>database = database_name env database_arg (cat_tables cat),
                 categories = (if own_props tm = [] then []
                               else [(str ''other'', Object_values (own_props tm))]),
                 tables = own_props tm,
                 root = root_node env w (Object_values (own_props tm))\<rparr>,
                prototype tm)"
proof -
  have "foldl_throw add_to_category [] (Object_values (own_props tm)) =
          Inr (if Object_values (own_props tm) = [] then []
               else [(str ''other'', Object_values (own_props tm))])"
    by (rule foldl_throw_add_to_category_uncategorized) (rule table_map_values(1) [OF assms(2)])
  moreover have "Object_values (own_props tm) = [] \<longleftrightarrow> own_props tm = []"
    by (simp add: Object_values_def)
  ultimately show ?thesis
    using assms by (simp add: buildVirtualTree_def Let_def zip_keys_values)
qed







lemma clinic_table_map:
  "table_map clinic_catalog =
     Inr \<lparr>own_props = [(str ''patients'', patients), (str ''visits'', visits)], prototype = None\<rparr>"
  by (simp add: table_map_def clinic_catalog_def add_table_def add_column_def table_lookup_def
      obj_set_def precedes_def array_index_def new_table_def new_column_def patients_def
      visits_def str_def Let_def)




section \<open>Properties of the lazy repair\<close>

text \<open>
  Claim C5, as the code has it.  The server holds a tree without root and the API key
  is set.  When the organizer call over the values of \<open>tables\<close> succeeds,
  \<^verbatim>\<open>ensureTree\<close> attaches the root to the tree it holds, writes the tree to the cache
  file unless the write fails, and returns the tree with its root; later calls find
  the root and change nothing.  When the organizer call fails, the exception is
  caught and the tree is returned as it was, without root.
\<close>

theorem ensureTree_repairs_missing_root:
  assumes "tree st = Some t" and "root t = None" and "truthy (OPENAI_API_KEY env)"
  shows "(organizeTablesIntoPaths env w (organizer_repair w) (Object_values (tables t)) = Inr r \<longrightarrow>
            ensureTree env w st =
              Inr (t\<lparr>root := Some r\<rparr>,
                   st\<lparr>tree := Some (t\<lparr>root := Some r\<rparr>),
                      cache_file := (if writeFileSync_fails w then cache_file st
                                     else Some (JSON_stringify w (t\<lparr>root := Some r\<rparr>)))\<rparr>) \<and>
            (\<forall>st'. tree st' = Some (t\<lparr>root := Some r\<rparr>) \<longrightarrow>
               ensureTree env w st' = Inr (t\<lparr>root := Some r\<rparr>, st'))) \<and>
         (organizeTablesIntoPaths env w (organizer_repair w) (Object_values (tables t)) = Inl e \<longrightarrow>
            ensureTree env w st = Inr (t, st))"
  using assms
  by (simp add: ensureTree_def repair_root_def saveSchemaToCache_def Let_def)

lemma clinic_organize:
  "organizeTablesIntoPaths with_key clinic_world (organizer_repair clinic_world)
     (Object_values (tables clinic_tree)) = Inr clinic_root"
  by (simp add: organizeTablesIntoPaths_def callOpenAIChatWithLogging_def callOpenAIChat_def
      with_key_def truthy_def clinic_world_def organizer_answer_def organizer_json_def
      quoted_def match_object_def match_span_def organizer_tree_def clinic_root_def
      assign_paths_def set_path_def str_def Let_def)

theorem ensureTree_repairs_missing_root_witness:
  "ensureTree with_key clinic_world \<lparr>tree = Some clinic_tree, tables_proto = None, cache_file = None\<rparr> =
     Inr (clinic_tree\<lparr>root := Some clinic_root\<rparr>,
          \<lparr>tree = Some (clinic_tree\<lparr>root := Some clinic_root\<rparr>),
           tables_proto = None, cache_file = Some (VirtualTree_to_json (clinic_tree\<lparr>root := Some clinic_root\<rparr>))\<rparr>) \<and>
   ensureTree with_key clinic_world
       \<lparr>tree = Some (clinic_tree\<lparr>root := Some clinic_root\<rparr>),
        tables_proto = None, cache_file = Some (VirtualTree_to_json (clinic_tree\<lparr>root := Some clinic_root\<rparr>))\<rparr> =
     Inr (clinic_tree\<lparr>root := Some clinic_root\<rparr>,
          \<lparr>tree = Some (clinic_tree\<lparr>root := Some clinic_root\<rparr>),
           tables_proto = None, cache_file = Some (VirtualTree_to_json (clinic_tree\<lparr>root := Some clinic_root\<rparr>))\<rparr>)"
proof -
  have h1: "tree \<lparr>tree = Some clinic_tree, tables_proto = None, cache_file = None :: json option\<rparr> = Some clinic_tree"
    by simp
  have h2: "root clinic_tree = None" by (simp add: clinic_tree_def)
  have h3: "truthy (OPENAI_API_KEY with_key)" by (simp add: with_key_def truthy_def str_def)
  have w: "\<not> writeFileSync_fails clinic_world \<and> JSON_stringify clinic_world = VirtualTree_to_json"
    by (simp add: clinic_world_def)
  show ?thesis
    using ensureTree_repairs_missing_root [OF h1 h2 h3, of clinic_world clinic_root]
      clinic_organize w
    by simp
qed

text \<open>
  The claim as the specification words it fails when the organizer, though
  configured, does not answer with a tree: the tree returned has no root.
\<close>

theorem ensureTree_organizer_fails_counterexample:
  "ensureTree with_key
     (clinic_world\<lparr>organizer_repair := \<lambda>ts. ApiContent (Some (str ''I cannot help with that.''))\<rparr>)
     \<lparr>tree = Some clinic_tree, tables_proto = None, cache_file = None\<rparr> =
     Inr (clinic_tree, \<lparr>tree = Some clinic_tree, tables_proto = None, cache_file = None\<rparr>) \<and>
   root clinic_tree = None"
  by (simp add: ensureTree_def repair_root_def organizeTablesIntoPaths_def
      callOpenAIChatWithLogging_def callOpenAIChat_def with_key_def truthy_def clinic_world_def
      match_object_def match_span_def clinic_tree_def str_def)


section \<open>Properties of the categorization\<close>

lemma dropWhile_neq_append:
  "l \<notin> set xs \<Longrightarrow> dropWhile (\<lambda>c. c \<noteq> l) (xs @ ys) = dropWhile (\<lambda>c. c \<noteq> l) ys"
  by (induction xs) auto

lemma dropWhile_neq_first:
  "l \<notin> set before \<Longrightarrow> dropWhile (\<lambda>c. c \<noteq> l) (before @ l # rest) = l # rest"
  by (simp add: dropWhile_neq_append)

lemma rev_dropWhile_neq_last:
  "r \<notin> set after \<Longrightarrow> rev (dropWhile (\<lambda>c. c \<noteq> r) (rev (body @ r # after))) = body @ [r]"
  by (simp add: dropWhile_neq_append)

lemma match_span_first:
  assumes "l \<notin> set before"
  shows "match_span l r (before @ l # rest) =
           (if r \<in> set rest then Some (l # rev (dropWhile (\<lambda>c. c \<noteq> r) (rev rest))) else None)"
  using assms by (simp add: match_span_def dropWhile_neq_first)

lemma dropWhile_neq_absent: "l \<notin> set s \<Longrightarrow> dropWhile (\<lambda>c. c \<noteq> l) s = []"
  by (induction s) auto

lemma match_span_absent: "l \<notin> set s \<Longrightarrow> match_span l r s = None"
  by (simp add: match_span_def dropWhile_neq_absent)

lemma match_span_between:
  assumes "l \<notin> set before" and "r \<notin> set after"
  shows "match_span l r (before @ [l] @ body @ [r] @ after) = Some ([l] @ body @ [r])"
  using assms by (simp add: match_span_first rev_dropWhile_neq_last del: rev_append)

lemma match_span_SomeD:
  assumes "match_span l r s = Some m"
  shows "\<exists>before body after. s = before @ m @ after \<and> m = [l] @ body @ [r] \<and>
           l \<notin> set before \<and> r \<notin> set after"
proof -
  have "l \<in> set s" using assms match_span_absent [of l s r] by auto
  then obtain before rest where s: "s = before @ l # rest" and before: "l \<notin> set before"
    using split_list_first [of l s] by blast
  from assms have r: "r \<in> set rest"
    and m: "m = l # rev (dropWhile (\<lambda>c. c \<noteq> r) (rev rest))"
    unfolding s match_span_first [OF before] by (simp_all split: if_splits)
  from r obtain body after where rest: "rest = body @ r # after" and after: "r \<notin> set after"
    using split_list_last [of r rest] by blast
  have m': "m = [l] @ body @ [r]"
    unfolding m rest rev_dropWhile_neq_last [OF after] by simp
  have "s = before @ m @ after" unfolding s rest m' by simp
  with m' before after show ?thesis by blast
qed

lemma match_span_None_iff:
  "match_span l r s = None \<longleftrightarrow> \<not> (\<exists>before body after. s = before @ [l] @ body @ [r] @ after)"
proof
  assume n: "match_span l r s = None"
  show "\<not> (\<exists>before body after. s = before @ [l] @ body @ [r] @ after)"
  proof
    assume "\<exists>before body after. s = before @ [l] @ body @ [r] @ after"
    then obtain before body after where s: "s = before @ [l] @ body @ [r] @ after" by blast
    then have "l \<in> set s" by simp
    then obtain pre rest where s': "s = pre @ l # rest" and pre: "l \<notin> set pre"
      using split_list_first [of l s] by blast
    have "r \<in> set rest"
    proof -
      from s s' have "pre @ l # rest = before @ l # (body @ r # after)" by simp
      then obtain us where
        "(pre = before @ us \<and> us @ l # rest = l # (body @ r # after)) \<or>
         (pre @ us = before \<and> l # rest = us @ l # (body @ r # after))"
        unfolding append_eq_append_conv2 by blast
      then show ?thesis
      proof
        assume a: "pre = before @ us \<and> us @ l # rest = l # (body @ r # after)"
        with pre have "l \<notin> set us" by simp
        with a have "us = []" by (cases us) auto
        with a show ?thesis by simp
      next
        assume a: "pre @ us = before \<and> l # rest = us @ l # (body @ r # after)"
        then show ?thesis by (cases us) auto
      qed
    qed
    with n show False unfolding s' match_span_first [OF pre] by simp
  qed
next
  assume a: "\<not> (\<exists>before body after. s = before @ [l] @ body @ [r] @ after)"
  show "match_span l r s = None"
  proof (cases "match_span l r s")
    case None
    then show ?thesis .
  next
    case (Some m)
    from match_span_SomeD [OF this] obtain before body after where
      "s = before @ m @ after" "m = [l] @ body @ [r]" by blast
    then have "s = before @ [l] @ body @ [r] @ after" by simp
    with a show ?thesis by blast
  qed
qed

lemma match_span_Some_iff:
  "match_span l r s = Some m \<longleftrightarrow>
     (\<exists>before body after. s = before @ m @ after \<and> m = [l] @ body @ [r] \<and>
        l \<notin> set before \<and> r \<notin> set after)"
proof
  assume "match_span l r s = Some m"
  then show "\<exists>before body after. s = before @ m @ after \<and> m = [l] @ body @ [r] \<and>
        l \<notin> set before \<and> r \<notin> set after"
    by (rule match_span_SomeD)
next
  assume "\<exists>before body after. s = before @ m @ after \<and> m = [l] @ body @ [r] \<and>
        l \<notin> set before \<and> r \<notin> set after"
  then obtain before body after where s: "s = before @ m @ after" and m: "m = [l] @ body @ [r]"
    and b: "l \<notin> set before" and a: "r \<notin> set after" by blast
  have "s = before @ [l] @ body @ [r] @ after" unfolding s m by simp
  then show "match_span l r s = Some m"
    unfolding m using match_span_between [OF b a, of body] by simp
qed

lemma categorizeTablesWithLLM_fails:
  "classifier_fails env w ts \<Longrightarrow> snd (categorizeTablesWithLLM env w ts) = ts"
  by (auto simp: classifier_fails_def categorizeTablesWithLLM_def split: sum.splits option.splits)

lemma useTableList_fallback:
  "\<not> truthy (OPENAI_API_KEY env) \<or> classifier_fails env w (Object_values m)
     \<Longrightarrow> useTableList env w m = Object_values m"
  by (auto simp: useTableList_def categorizeTablesWithLLM_fails)

text \<open>
  Claim C2, as the code has it.  The text handed to \<^verbatim>\<open>JSON.parse\<close> runs from the
  first opening bracket of the response to its last closing bracket: prose before it
  without an opening bracket and prose after it without a closing bracket are
  tolerated.  A response with no opening bracket followed by a closing one returns
  the tables unchanged; a text that does not parse and an unreachable service make
  the categorization throw with the tables unchanged.  In each of the failures the
  specification names, and when the API key is not set, the build goes on with the
  tables of the table map as they are, puts all of them into the category \<^verbatim>\<open>other\<close>,
  and returns the tree made of them.
\<close>

theorem categorization_first_to_last_bracket:
  "(match_array response = Some m \<longleftrightarrow>
      (\<exists>before body after. response = before @ m @ after \<and> m = [91] @ body @ [93] \<and>
         91 \<notin> set before \<and> 93 \<notin> set after)) \<and>
   (match_array response = None \<longleftrightarrow>
      \<not> (\<exists>before body after. response = before @ [91] @ body @ [93] @ after)) \<and>
   (callOpenAIChatWithLogging env (classifier w ts) = Inr response \<longrightarrow>
      categorizeTablesWithLLM env w ts =
        (case match_array response of
           None \<Rightarrow> (None, ts)
         | Some jsonMatch \<Rightarrow>
             (case JSON_parse_items w jsonMatch of
                None \<Rightarrow> (Some SyntaxError, ts)
              | Some parsed \<Rightarrow> merge_items ts parsed))) \<and>
   (truthy (OPENAI_API_KEY env) \<and> classifier w ts = ApiFails e \<longrightarrow>
      categorizeTablesWithLLM env w ts = (Some e, ts)) \<and>
   (classifier_fails env w ts \<longrightarrow> snd (categorizeTablesWithLLM env w ts) = ts) \<and>
   (\<not> truthy (OPENAI_API_KEY env) \<or> classifier_fails env w (Object_values tableMap) \<longrightarrow>
      useTableList env w tableMap = Object_values tableMap) \<and>
   (introspect env w database_arg = Inr cat \<and> table_map cat = Inr tm \<and>
    (\<not> truthy (OPENAI_API_KEY env) \<or>
     classifier_fails env w (Object_values (own_props tm))) \<longrightarrow>
      buildVirtualTree env w database_arg =
        Inr (\<lparr>database = database_name env database_arg (cat_tables cat),
              categories = (if own_props tm = [] then []
                            else [(str ''other'', Object_values (own_props tm))]),
              tables = own_props tm,
              root = root_node env w (Object_values (own_props tm))\<rparr>,
             prototype tm))"
proof (intro conjI)
  show "match_array response = Some m \<longleftrightarrow>
      (\<exists>before body after. response = before @ m @ after \<and> m = [91] @ body @ [93] \<and>
         91 \<notin> set before \<and> 93 \<notin> set after)"
    unfolding match_array_def by (rule match_span_Some_iff)
  show "match_array response = None \<longleftrightarrow>
      \<not> (\<exists>before body after. response = before @ [91] @ body @ [93] @ after)"
    unfolding match_array_def by (rule match_span_None_iff)
  show "callOpenAIChatWithLogging env (classifier w ts) = Inr response \<longrightarrow>
      categorizeTablesWithLLM env w ts =
        (case match_array response of
           None \<Rightarrow> (None, ts)
         | Some jsonMatch \<Rightarrow>
             (case JSON_parse_items w jsonMatch of
                None \<Rightarrow> (Some SyntaxError, ts)
              | Some parsed \<Rightarrow> merge_items ts parsed))"
    by (simp add: categorizeTablesWithLLM_def)
  show "truthy (OPENAI_API_KEY env) \<and> classifier w ts = ApiFails e \<longrightarrow>
      categorizeTablesWithLLM env w ts = (Some e, ts)"
    by (simp add: categorizeTablesWithLLM_def callOpenAIChatWithLogging_def callOpenAIChat_def)
  show "classifier_fails env w ts \<longrightarrow> snd (categorizeTablesWithLLM env w ts) = ts"
    by (simp add: categorizeTablesWithLLM_fails)
  show "\<not> truthy (OPENAI_API_KEY env) \<or> classifier_fails env w (Object_values tableMap) \<longrightarrow>
      useTableList env w tableMap = Object_values tableMap"
    using useTableList_fallback by blast
  show "introspect env w database_arg = Inr cat \<and> table_map cat = Inr tm \<and>
    (\<not> truthy (OPENAI_API_KEY env) \<or>
     classifier_fails env w (Object_values (own_props tm))) \<longrightarrow>
      buildVirtualTree env w database_arg =
        Inr (\<lparr>database = database_name env database_arg (cat_tables cat),
              categories = (if own_props tm = [] then []
                            else [(str ''other'', Object_values (own_props tm))]),
              tables = own_props tm,
              root = root_node env w (Object_values (own_props tm))\<rparr>,
             prototype tm)"
    using buildVirtualTree_uncategorized useTableList_fallback by blast
qed

text \<open>
  The claim as the specification words it fails when prose after the array has
  brackets of its own.  For the response \<^verbatim>\<open>[] and []\<close> the first balanced array is
  \<^verbatim>\<open>[]\<close>, but the text matched is the whole response; \<^verbatim>\<open>JSON.parse\<close> makes the empty
  array of \<^verbatim>\<open>[]\<close> and throws on the whole response, so the categorization throws.
\<close>

theorem categorization_trailing_brackets_counterexample:
  "match_array (str ''[] and []'') = Some (str ''[] and []'') \<and>
   spec_first_balanced_array (str ''[] and []'') = Some (str ''[]'') \<and>
   categorizeTablesWithLLM with_key
     (clinic_world\<lparr>classifier := \<lambda>ts. ApiContent (Some (str ''[] and []'')),
                    JSON_parse_items := \<lambda>s. if s = str ''[]'' then Some [] else None\<rparr>)
     [patients] = (Some SyntaxError, [patients])"
  by (simp add: match_array_def match_span_def str_def categorizeTablesWithLLM_def
      callOpenAIChatWithLogging_def callOpenAIChat_def with_key_def truthy_def clinic_world_def)

lemma clinic_root_node:
  "root_node with_key clinic_world [patients, visits] = Some clinic_root"
  by (simp add: root_node_def organizeTablesIntoPaths_def callOpenAIChatWithLogging_def
      callOpenAIChat_def with_key_def truthy_def clinic_world_def organizer_answer_def
      organizer_json_def quoted_def match_object_def match_span_def organizer_tree_def
      clinic_root_def assign_paths_def set_path_def str_def Let_def)

theorem categorization_first_to_last_bracket_witness:
  "match_array (str ''Sure: [] ok.'') = Some (str ''[]'') \<and>
   \<not> (\<exists>before body after. str ''no list here'' = before @ [91] @ body @ [93] @ after) \<and>
   categorizeTablesWithLLM with_key
     (clinic_world\<lparr>classifier := \<lambda>ts. ApiContent (Some (str ''Sure: [] ok.'')),
                    JSON_parse_items := \<lambda>s. if s = str ''[]'' then Some [] else None\<rparr>)
     [patients] = (None, [patients]) \<and>
   categorizeTablesWithLLM with_key clinic_world [patients] =
     (Some (Error (str ''connect ECONNREFUSED'')), [patients]) \<and>
   classifier_fails with_key clinic_world [patients, visits] \<and>
   snd (categorizeTablesWithLLM with_key clinic_world [patients, visits]) = [patients, visits] \<and>
   useTableList with_key clinic_world [(str ''patients'', patients), (str ''visits'', visits)] =
     [patients, visits] \<and>
   buildVirtualTree with_key clinic_world None =
     Inr (clinic_tree\<lparr>root := Some clinic_root\<rparr>, None)"
proof -
  let ?w = "clinic_world\<lparr>classifier := \<lambda>ts. ApiContent (Some (str ''Sure: [] ok.'')),
                    JSON_parse_items := \<lambda>s. if s = str ''[]'' then Some [] else None\<rparr>"
  let ?e = "Error (str ''connect ECONNREFUSED'')"
  let ?tm = "\<lparr>own_props = [(str ''patients'', patients), (str ''visits'', visits)],
              prototype = None\<rparr>"
  have key: "truthy (OPENAI_API_KEY with_key)" by (simp add: with_key_def truthy_def str_def)
  have split: "str ''Sure: [] ok.'' = str ''Sure: '' @ str ''[]'' @ str '' ok.'' \<and>
      str ''[]'' = [91] @ [] @ [93] \<and> 91 \<notin> set (str ''Sure: '') \<and> 93 \<notin> set (str '' ok.'')"
    by (simp add: str_def)
  have none: "match_array (str ''no list here'') = None"
    by (simp add: match_array_def match_span_def str_def)
  have call: "callOpenAIChatWithLogging with_key (classifier ?w [patients]) =
      Inr (str ''Sure: [] ok.'')"
    by (simp add: callOpenAIChatWithLogging_def callOpenAIChat_def with_key_def truthy_def
        clinic_world_def str_def)
  have parse: "JSON_parse_items ?w (str ''[]'') = Some []" by simp
  have fails: "classifier clinic_world [patients] = ApiFails ?e" by (simp add: clinic_world_def)
  have cf: "classifier_fails with_key clinic_world [patients, visits]"
    by (simp add: classifier_fails_def callOpenAIChatWithLogging_def callOpenAIChat_def
        with_key_def truthy_def clinic_world_def str_def)
  have intro: "introspect with_key clinic_world None = Inr clinic_catalog"
    by (simp add: introspect_def with_key_def clinic_world_def or_else_def truthy_def str_def)
  have vals: "Object_values [(str ''patients'', patients), (str ''visits'', visits)] =
      [patients, visits]"
    by (simp add: Object_values_def)
  have db: "database_name with_key None (cat_tables clinic_catalog) = str ''clinic''"
    by (simp add: database_name_def clinic_catalog_def or_else_def truthy_def str_def)
  note t1 = categorization_first_to_last_bracket
    [where response = "str ''Sure: [] ok.''" and m = "str ''[]''" and env = with_key and w = ?w
       and ts = "[patients]"]
  note t2 = categorization_first_to_last_bracket
    [where response = "str ''no list here''" and env = with_key and w = clinic_world
       and ts = "[patients]" and e = ?e]
  note t3 = categorization_first_to_last_bracket
    [where env = with_key and w = clinic_world and ts = "[patients, visits]"
       and tableMap = "[(str ''patients'', patients), (str ''visits'', visits)]"
       and database_arg = None and cat = clinic_catalog and tm = ?tm]
  have m: "match_array (str ''Sure: [] ok.'') = Some (str ''[]'')"
    using t1 [THEN conjunct1] split by blast
  have c1: "categorizeTablesWithLLM with_key ?w [patients] = (None, [patients])"
    using t1 [THEN conjunct2, THEN conjunct2, THEN conjunct1] call m parse by simp
  have n: "\<not> (\<exists>before body after. str ''no list here'' = before @ [91] @ body @ [93] @ after)"
    using t2 [THEN conjunct2, THEN conjunct1] none by blast
  have c2: "categorizeTablesWithLLM with_key clinic_world [patients] = (Some ?e, [patients])"
    using t2 [THEN conjunct2, THEN conjunct2, THEN conjunct2, THEN conjunct1] key fails by blast
  have s: "snd (categorizeTablesWithLLM with_key clinic_world [patients, visits]) =
      [patients, visits]"
    using t3 [THEN conjunct2, THEN conjunct2, THEN conjunct2, THEN conjunct2, THEN conjunct1] cf
    by blast
  have u: "useTableList with_key clinic_world
      [(str ''patients'', patients), (str ''visits'', visits)] = [patients, visits]"
    using t3 [THEN conjunct2, THEN conjunct2, THEN conjunct2, THEN conjunct2, THEN conjunct2,
        THEN conjunct1] cf vals by simp
  have b: "buildVirtualTree with_key clinic_world None =
      Inr (clinic_tree\<lparr>root := Some clinic_root\<rparr>, None)"
    using t3 [THEN conjunct2, THEN conjunct2, THEN conjunct2, THEN conjunct2, THEN conjunct2,
        THEN conjunct2] intro clinic_table_map cf
    by (simp add: vals db clinic_root_node clinic_tree_def)
  from m n c1 c2 cf s u b show ?thesis by (intro conjI)
qed

section \<open>Properties of the cache\<close>

lemma those_map_Some:
  "(\<And>x. x \<in> set xs \<Longrightarrow> f (g x) = Some x) \<Longrightarrow> those (map (f \<circ> g) xs) = Some xs"
  by (induction xs) simp_all

lemma map_of_opt_field:
  "map_of (opt_field k enc v) k' = (if str k = k' then map_option enc v else None)"
  by (cases v) (simp_all add: opt_field_def)

lemma json_Column_round_trip: "json_to_Column (Column_to_json c) = Some c"
  by (cases c) (simp add: json_to_Column_def Column_to_json_def get_string_def str_def)

lemma json_Columns_round_trip: "those (map (json_to_Column \<circ> Column_to_json) cs) = Some cs"
  by (rule those_map_Some) (rule json_Column_round_trip)

lemma json_Table_round_trip: "json_to_Table (Table_to_json t) = Some t"
proof (cases t)
  case (fields n c cols lc ld)
  have keys: "str ''name'' \<noteq> str ''columns''" "str ''comment'' \<noteq> str ''columns''"
    "str ''llm_category'' \<noteq> str ''columns''" "str ''llm_description'' \<noteq> str ''columns''"
    "str ''name'' \<noteq> str ''comment''" "str ''name'' \<noteq> str ''llm_category''"
    "str ''name'' \<noteq> str ''llm_description''" "str ''comment'' \<noteq> str ''llm_category''"
    "str ''comment'' \<noteq> str ''llm_description''" "str ''llm_category'' \<noteq> str ''llm_description''"
    "str ''comment'' \<noteq> str ''name''" "str ''llm_category'' \<noteq> str ''name''"
    "str ''llm_description'' \<noteq> str ''name''" "str ''llm_category'' \<noteq> str ''comment''"
    "str ''llm_description'' \<noteq> str ''comment''" "str ''llm_description'' \<noteq> str ''llm_category''"
    "str ''columns'' \<noteq> str ''name''" "str ''columns'' \<noteq> str ''comment''"
    "str ''columns'' \<noteq> str ''llm_category''" "str ''columns'' \<noteq> str ''llm_description''"
    by (simp_all add: str_def)
  show ?thesis
    unfolding fields
    by (cases c; cases lc; cases ld)
      (simp_all add: json_to_Table_def Table_to_json_def get_string_def well_typed_opt_string_def
        map_of_opt_field opt_field_def keys json_Columns_round_trip)
qed

lemma json_Tables_round_trip: "those (map (json_to_Table \<circ> Table_to_json) ts) = Some ts"
  by (rule those_map_Some) (rule json_Table_round_trip)

lemma json_PathNode_round_trip: "json_to_PathNode (PathNode_to_json n) = Some n"
proof (induction n)
  case (PathNode nm p t cs tn d)
  have keys: "str ''name'' \<noteq> str ''path''" "str ''name'' \<noteq> str ''type''"
    "str ''path'' \<noteq> str ''type''" "str ''path'' \<noteq> str ''name''"
    "str ''type'' \<noteq> str ''name''" "str ''type'' \<noteq> str ''path''"
    "str ''children'' \<noteq> str ''name''" "str ''children'' \<noteq> str ''path''"
    "str ''children'' \<noteq> str ''type''" "str ''children'' \<noteq> str ''tableName''"
    "str ''children'' \<noteq> str ''description''"
    "str ''tableName'' \<noteq> str ''name''" "str ''tableName'' \<noteq> str ''path''"
    "str ''tableName'' \<noteq> str ''type''" "str ''tableName'' \<noteq> str ''children''"
    "str ''tableName'' \<noteq> str ''description''"
    "str ''description'' \<noteq> str ''name''" "str ''description'' \<noteq> str ''path''"
    "str ''description'' \<noteq> str ''type''" "str ''description'' \<noteq> str ''children''"
    "str ''description'' \<noteq> str ''tableName''"
    "str ''name'' \<noteq> str ''children''" "str ''name'' \<noteq> str ''tableName''"
    "str ''name'' \<noteq> str ''description''" "str ''path'' \<noteq> str ''children''"
    "str ''path'' \<noteq> str ''tableName''" "str ''path'' \<noteq> str ''description''"
    "str ''type'' \<noteq> str ''children''" "str ''type'' \<noteq> str ''tableName''"
    "str ''type'' \<noteq> str ''description''" "str ''directory'' \<noteq> str ''file''"
    "str ''file'' \<noteq> str ''directory''"
    by (simp_all add: str_def)
  have kids: "\<And>l. cs = Some l \<Longrightarrow> those (map (json_to_PathNode \<circ> PathNode_to_json) l) = Some l"
    using PathNode by (intro those_map_Some) simp
  show ?case
    by (cases t; cases cs; cases tn; cases d)
      (simp_all add: get_string_def well_typed_opt_string_def map_of_opt_field opt_field_def
        NodeType_to_json_def keys kids)
qed

lemma json_Table_list_round_trip:
  "json_to_Table_list (JArray (map Table_to_json ts)) = Some ts"
  by (simp add: json_to_Table_list_def json_Tables_round_trip)

lemma json_Record_round_trip:
  assumes "\<And>v. dec (enc v) = Some v"
  shows "json_to_Record dec (JObject (map (\<lambda>(k, v). (k, enc v)) m)) = Some m"
proof -
  have "those (map ((\<lambda>(k, v). map_option (Pair k) (dec v)) \<circ> (\<lambda>(k, v). (k, enc v))) m) = Some m"
    by (rule those_map_Some) (auto simp: assms)
  then show ?thesis by (simp add: json_to_Record_def)
qed

lemma json_VirtualTree_round_trip: "json_to_VirtualTree (VirtualTree_to_json T) = Some T"
proof (cases T)
  case (fields db cats tbls r)
  have keys: "str ''database'' \<noteq> str ''categories''" "str ''database'' \<noteq> str ''tables''"
    "str ''database'' \<noteq> str ''root''" "str ''categories'' \<noteq> str ''database''"
    "str ''categories'' \<noteq> str ''tables''" "str ''categories'' \<noteq> str ''root''"
    "str ''tables'' \<noteq> str ''database''" "str ''tables'' \<noteq> str ''categories''"
    "str ''tables'' \<noteq> str ''root''" "str ''root'' \<noteq> str ''database''"
    "str ''root'' \<noteq> str ''categories''" "str ''root'' \<noteq> str ''tables''"
    by (simp_all add: str_def)
  have c: "json_to_Record json_to_Table_list
             (JObject (map (\<lambda>(k, ts). (k, JArray (map Table_to_json ts))) cats)) = Some cats"
    using json_Record_round_trip [of json_to_Table_list "\<lambda>ts. JArray (map Table_to_json ts)" cats]
    by (simp add: json_Table_list_round_trip)
  have t: "json_to_Record json_to_Table
             (JObject (map (\<lambda>(k, tbl). (k, Table_to_json tbl)) tbls)) = Some tbls"
    using json_Record_round_trip [of json_to_Table Table_to_json tbls]
    by (simp add: json_Table_round_trip)
  show ?thesis
    unfolding fields
    by (cases r)
      (simp_all add: json_to_VirtualTree_def VirtualTree_to_json_def get_string_def
        map_of_opt_field opt_field_def keys c t json_PathNode_round_trip)
qed

text \<open>
  Claim C7.  The document written for a tree reads back as the same tree: the same
  \<open>tables\<close>, \<open>categories\<close> and \<open>root\<close>, every sequence in its order.  With a runtime
  that writes and reads these documents and a write that succeeds, a process that
  starts after \<^verbatim>\<open>saveSchemaToCache\<close> loads the tree that was saved; the table map of
  the loaded tree is a parsed object, with the prototype of every plain object.
\<close>

theorem cache_round_trip:
  "json_to_VirtualTree (VirtualTree_to_json T) = Some T \<and>
   (JSON_stringify w = VirtualTree_to_json \<and> JSON_parse_tree w = json_to_VirtualTree \<and>
    \<not> writeFileSync_fails w \<and> tree st = Some T \<longrightarrow>
      load_cache w (saveSchemaToCache w st) = Some T \<and>
      ensureTree env w ((saveSchemaToCache w st)\<lparr>tree := None\<rparr>) =
        Inr (T, (saveSchemaToCache w st)\<lparr>tables_proto := None\<rparr>))"
  by (simp add: json_VirtualTree_round_trip load_cache_def saveSchemaToCache_def ensureTree_def)

theorem cache_round_trip_witness:
  "load_cache clinic_world
     (saveSchemaToCache clinic_world
        \<lparr>tree = Some (clinic_tree\<lparr>root := Some clinic_root\<rparr>), tables_proto = None, cache_file = None\<rparr>) =
     Some (clinic_tree\<lparr>root := Some clinic_root\<rparr>) \<and>
   ensureTree no_key clinic_world
     \<lparr>tree = None,
      tables_proto = None, cache_file = Some (VirtualTree_to_json (clinic_tree\<lparr>root := Some clinic_root\<rparr>))\<rparr> =
     Inr (clinic_tree\<lparr>root := Some clinic_root\<rparr>,
          \<lparr>tree = Some (clinic_tree\<lparr>root := Some clinic_root\<rparr>),
           tables_proto = None, cache_file = Some (VirtualTree_to_json (clinic_tree\<lparr>root := Some clinic_root\<rparr>))\<rparr>)"
proof -
  let ?T = "clinic_tree\<lparr>root := Some clinic_root\<rparr>"
  let ?st = "\<lparr>tree = Some ?T, tables_proto = None, cache_file = None :: json option\<rparr>"
  have h: "JSON_stringify clinic_world = VirtualTree_to_json \<and>
           JSON_parse_tree clinic_world = json_to_VirtualTree \<and>
           \<not> writeFileSync_fails clinic_world \<and> tree ?st = Some ?T"
    by (simp add: clinic_world_def)
  have s: "saveSchemaToCache clinic_world ?st =
             \<lparr>tree = Some ?T, tables_proto = None, cache_file = Some (VirtualTree_to_json ?T)\<rparr>"
    by (simp add: saveSchemaToCache_def clinic_world_def)
  show ?thesis
    using cache_round_trip [of ?T clinic_world ?st no_key, THEN conjunct2] h
    unfolding s by simp
qed

end
